theory Spec2Isabelle
  imports Complex_Main "HOL-Library.Multiset"
begin

section \<open>Data model (src/types.ts)\<close>

text \<open>
  A TypeScript \<open>number\<close> that holds a millisecond timestamp (a value of \<open>Date.now()\<close>,
  or one plus the session duration) is a whole number far below \<open>2^53\<close> and is modelled
  as an \<open>int\<close>. A \<open>number\<close> that holds an amount or a balance is an IEEE 754 double
  (\<open>double\<close> below): the sums and differences of the source round to the nearest double.
  Quotients, squares and square roots of the analytics engine are taken in \<open>real\<close>, from
  the values of finite doubles. Strings are byte strings; trimming and case folding are
  the ASCII part of the JavaScript functions.
\<close>

type_synonym number = int

subsection \<open>Doubles\<close>

text \<open>
  A double is infinite, not a number, or finite; a finite double is represented by its
  value, a rational. The two zeros are one value: they are equal under \<open>===\<close>, and sums
  and differences tell them apart only in the sign of a zero result. Every operation
  returns a value that a double can hold.
\<close>

datatype double = Finite rat | PosInf | NegInf | NaN

text \<open>The floor of the binary logarithm of a positive rational: how often it can be
  halved, or must be doubled, to land in \<open>[1, 2)\<close>.\<close>

function halvings :: "rat \<Rightarrow> int" where
  "halvings x = (if 2 \<le> x then halvings (x / 2) + 1 else 0)"
  by pat_completeness auto
termination
  by (relation "measure (\<lambda>x. nat \<lfloor>x\<rfloor>)") (auto, linarith)

function doublings :: "rat \<Rightarrow> int" where
  "doublings x = (if 0 < x \<and> x < 1 then doublings (2 * x) + 1 else 0)"
  by pat_completeness auto
termination
proof (relation "measure (\<lambda>x. nat \<lfloor>1 / x\<rfloor>)")
  show "wf (measure (\<lambda>x. nat \<lfloor>1 / x\<rfloor>))" by simp
next
  fix x :: rat
  assume a: "0 < x \<and> x < 1"
  define y where "y = 1 / x"
  have y: "1 \<le> y" using a by (simp add: y_def)
  then have f: "1 \<le> \<lfloor>y\<rfloor>" by (simp add: le_floor_iff)
  have "y < of_int \<lfloor>y\<rfloor> + 1" by linarith
  also have "\<dots> \<le> 2 * of_int \<lfloor>y\<rfloor>" using f by linarith
  finally have "y / 2 < of_int \<lfloor>y\<rfloor>" by simp
  then have "\<lfloor>y / 2\<rfloor> < \<lfloor>y\<rfloor>" by (simp add: floor_less_iff)
  with f show "(2 * x, x) \<in> measure (\<lambda>x. nat \<lfloor>1 / x\<rfloor>)"
    by (simp add: y_def field_simps)
qed

declare halvings.simps [simp del] doublings.simps [simp del]

definition ilog2 :: "rat \<Rightarrow> int" where
  "ilog2 x = (if 1 \<le> x then halvings x else - doublings x)"

text \<open>The nearest whole number, the even one of two that are equally near.\<close>

definition round_even :: "rat \<Rightarrow> int" where
  "round_even q =
     (let f = \<lfloor>q\<rfloor>; r = q - of_int f
      in if r < 1 / 2 then f else if 1 / 2 < r then f + 1 else if even f then f else f + 1)"

text \<open>
  The double nearest to a rational (round to nearest, ties to even): 53 significant bits,
  the exponent not below that of the subnormal doubles, and infinity from \<open>2^1024\<close> on.
  It is also what \<open>parseFloat\<close> gives for a decimal text of that value.
\<close>

definition round_double :: "rat \<Rightarrow> double" where
  "round_double x =
     (if x = 0 then Finite 0
      else
        (let e = max (ilog2 \<bar>x\<bar>) (- 1022);
             ulp = 2 powi (e - 52);
             r = of_int (round_even (x / ulp)) * ulp
         in if 2 ^ 1024 \<le> \<bar>r\<bar> then (if 0 < x then PosInf else NegInf) else Finite r))"

text \<open>\<open>x + y\<close>, \<open>- x\<close>, \<open>x - y\<close> and \<open>x < y\<close> on doubles.\<close>

fun dadd :: "double \<Rightarrow> double \<Rightarrow> double" where
  "dadd NaN y = NaN"
| "dadd x NaN = NaN"
| "dadd PosInf NegInf = NaN"
| "dadd NegInf PosInf = NaN"
| "dadd PosInf y = PosInf"
| "dadd NegInf y = NegInf"
| "dadd x PosInf = PosInf"
| "dadd x NegInf = NegInf"
| "dadd (Finite a) (Finite b) = round_double (a + b)"

fun dneg :: "double \<Rightarrow> double" where
  "dneg (Finite a) = Finite (- a)"
| "dneg PosInf = NegInf"
| "dneg NegInf = PosInf"
| "dneg NaN = NaN"

definition dsub :: "double \<Rightarrow> double \<Rightarrow> double" where
  "dsub x y = dadd x (dneg y)"

fun dless :: "double \<Rightarrow> double \<Rightarrow> bool" where
  "dless NaN y = False"
| "dless x NaN = False"
| "dless (Finite a) (Finite b) = (a < b)"
| "dless PosInf y = False"
| "dless x PosInf = True"
| "dless x NegInf = False"
| "dless NegInf y = True"

text \<open>The value of a finite double. A stored amount is finite: JSON has no text for an
  infinity or for NaN. The analytics engine's quotients are modelled from this value; on
  an infinite or NaN sum they are not those of the code.\<close>

definition rat_of_double :: "double \<Rightarrow> rat" where
  "rat_of_double d = (case d of Finite r \<Rightarrow> r | _ \<Rightarrow> 0)"

definition real_of_double :: "double \<Rightarrow> real" where
  "real_of_double d = of_rat (rat_of_double d)"

datatype UserRole = HOST | MEMBER

datatype TransactionType = CREDIT | DEBIT

datatype TransactionCategory =
  ALLOWANCE | FOOD | GAMES | EDUCATION | ENTERTAINMENT | SAVINGS | GIFT | OTHER

datatype RequestStatus = PENDING | APPROVED | REJECTED

record User =
  u_id :: string
  u_familyId :: string
  u_name :: string
  u_username :: string
  u_password :: "string option"
  u_role :: UserRole
  u_parentId :: "string option"
  u_isActive :: bool

record Transaction =
  tx_id :: string
  tx_userId :: string
  tx_amount :: double
  tx_type :: TransactionType
  tx_category :: TransactionCategory
  tx_description :: string
  tx_timestamp :: number

record MoneyRequest =
  rq_id :: string
  rq_childId :: string
  rq_amount :: double
  rq_reason :: string
  rq_status :: RequestStatus
  rq_timestamp :: number

record FamilyMessage =
  m_id :: string
  m_familyId :: string
  m_fromId :: string
  m_fromRole :: UserRole
  m_toId :: string
  m_text :: string
  m_timestamp :: number
  m_isRead :: bool
  m_replyToId :: "string option"

record Session =
  s_token :: string
  s_userId :: string
  s_familyId :: string
  s_role :: UserRole
  s_exp :: number
  s_cloudSync :: "bool option"

record 'a ServiceResponse =
  success :: bool
  data :: "'a option"
  error :: "string option"

section \<open>The browser's localStorage\<close>

text \<open>
  What \<open>localStorage.getItem\<close> finds under one of the five JSON keys of the service:
  nothing (\<open>null\<close>), the empty string, a text that \<open>JSON.parse\<close> rejects with a
  SyntaxError, or the text \<open>JSON.stringify v\<close> of a value \<open>v\<close>, which \<open>JSON.parse\<close>
  maps back to \<open>v\<close>. Every other key holds plain text. A \<open>setItem\<close> always succeeds:
  the quota of the browser is not modelled.
\<close>

datatype 'a slot = NoItem | EmptyString | Malformed | Stored 'a

datatype js_error = SyntaxError

record localStorage =
  users_item :: "User list slot"
  transactions_item :: "Transaction list slot"
  requests_item :: "MoneyRequest list slot"
  messages_item :: "FamilyMessage list slot"
  session_item :: "Session slot"
  other_items :: "string \<Rightarrow> string option"

definition USERS_KEY :: string where "USERS_KEY = ''zenledger_v21_users''"
definition TRANSACTIONS_KEY :: string where "TRANSACTIONS_KEY = ''zenledger_v21_transactions''"
definition REQUESTS_KEY :: string where "REQUESTS_KEY = ''zenledger_v21_requests''"
definition MESSAGES_KEY :: string where "MESSAGES_KEY = ''zenledger_v21_messages''"
definition SESSION_KEY :: string where "SESSION_KEY = ''zenledger_v21_session''"

definition SESSION_DURATION :: number where "SESSION_DURATION = 86400000"

definition json_keys :: "string list" where
  "json_keys = [USERS_KEY, TRANSACTIONS_KEY, REQUESTS_KEY, MESSAGES_KEY, SESSION_KEY]"

text \<open>A browser profile in which nothing has been stored yet.\<close>

definition empty_storage :: localStorage where
  "empty_storage = \<lparr> users_item = NoItem, transactions_item = NoItem, requests_item = NoItem,
     messages_item = NoItem, session_item = NoItem, other_items = (\<lambda>k. None) \<rparr>"

text \<open>\<open>JSON.parse(localStorage.getItem(KEY) || '[]')\<close>: \<open>null\<close> and the empty string
  are falsy and fall back to \<open>'[]'\<close>; a rejected text raises.\<close>

definition parse_or_empty :: "'a list slot \<Rightarrow> js_error + 'a list" where
  "parse_or_empty it =
     (case it of NoItem \<Rightarrow> Inr [] | EmptyString \<Rightarrow> Inr []
               | Malformed \<Rightarrow> Inl SyntaxError | Stored xs \<Rightarrow> Inr xs)"

text \<open>The outcome of an \<open>async\<close> function: the promise is rejected with the error that
  was thrown, or resolved with the value returned.\<close>

datatype 'a promise = Rejected js_error | Resolved 'a

section \<open>Strings\<close>

definition is_space :: "char \<Rightarrow> bool" where
  "is_space c = (let n = (of_char c :: nat) in (9 \<le> n \<and> n \<le> 13) \<or> n = 32)"

definition trim :: "string \<Rightarrow> string" where
  "trim s = rev (dropWhile is_space (rev (dropWhile is_space s)))"

definition lower_char :: "char \<Rightarrow> char" where
  "lower_char c = (let n = (of_char c :: nat) in if 65 \<le> n \<and> n \<le> 90 then char_of (n + 32) else c)"

definition toLowerCase :: "string \<Rightarrow> string" where
  "toLowerCase s = map lower_char s"

definition decimal_digits :: string where
  "decimal_digits = ''0123456789''"

function string_of_nat :: "nat \<Rightarrow> string" where
  "string_of_nat n =
     (if n < 10 then [decimal_digits ! n]
      else string_of_nat (n div 10) @ [decimal_digits ! (n mod 10)])"
  by pat_completeness auto
termination
  by (relation "measure (\<lambda>n. n)") auto

declare string_of_nat.simps [simp del]

text \<open>The text a template literal gives for a whole number.\<close>

definition string_of_number :: "number \<Rightarrow> string" where
  "string_of_number i =
     (if i < 0 then CHR ''-'' # string_of_nat (nat (- i)) else string_of_nat (nat i))"

section \<open>The storage service (src/services/storageService.ts)\<close>

definition failure :: "string \<Rightarrow> 'a ServiceResponse" where
  "failure msg = \<lparr> success = False, data = None, error = Some msg \<rparr>"

definition succeed :: "'a \<Rightarrow> 'a ServiceResponse" where
  "succeed x = \<lparr> success = True, data = Some x, error = None \<rparr>"

text \<open>\<open>signupCluster(familyId, handle, pass)\<close>; \<open>now\<close> is the value of \<open>Date.now()\<close>.\<close>

definition signupCluster ::
  "number \<Rightarrow> string \<Rightarrow> string \<Rightarrow> string \<Rightarrow> localStorage
     \<Rightarrow> User ServiceResponse promise \<times> localStorage" where
  "signupCluster now familyId handle pass ls =
     (case parse_or_empty (users_item ls) of
        Inl e \<Rightarrow> (Rejected e, ls)
      | Inr users \<Rightarrow>
          (let fid = toLowerCase (trim familyId);
               username = toLowerCase (trim handle)
           in if find (\<lambda>u. u_familyId u = fid \<and> u_username u = username) users \<noteq> None
              then (Resolved (failure ''Identity handle already provisioned in this cluster.''), ls)
              else
                (let newUser = \<lparr> u_id = ''u_'' @ string_of_number now, u_familyId = fid,
                       u_name = handle, u_username = username, u_password = Some pass,
                       u_role = HOST, u_parentId = None, u_isActive = True \<rparr>
                 in (Resolved (succeed newUser),
                     ls\<lparr> users_item := Stored (users @ [newUser]) \<rparr>))))"

text \<open>\<open>provisionMember(session, username, pass)\<close>; \<open>rnd\<close> is the text
  \<open>Math.random().toString(36).substr(2, 9)\<close>.\<close>

definition provisionMember ::
  "string \<Rightarrow> Session \<Rightarrow> string \<Rightarrow> string \<Rightarrow> localStorage
     \<Rightarrow> User ServiceResponse promise \<times> localStorage" where
  "provisionMember rnd session username pass ls =
     (if s_role session \<noteq> HOST
      then (Resolved (failure ''Authorization restricted to Host Nodes.''), ls)
      else
        (case parse_or_empty (users_item ls) of
           Inl e \<Rightarrow> (Rejected e, ls)
         | Inr users \<Rightarrow>
             (let handle = toLowerCase (trim username)
              in if find (\<lambda>u. u_familyId u = s_familyId session \<and> u_username u = handle) users
                      \<noteq> None
                 then (Resolved (failure ''Member handle already provisioned.''), ls)
                 else
                   (let newMember = \<lparr> u_id = ''u_'' @ rnd, u_familyId = s_familyId session,
                          u_name = username, u_username = handle, u_password = Some pass,
                          u_role = MEMBER, u_parentId = Some (s_userId session),
                          u_isActive = True \<rparr>
                    in (Resolved (succeed newMember),
                        ls\<lparr> users_item := Stored (users @ [newMember]) \<rparr>)))))"

text \<open>\<open>login(familyId, handle, pass)\<close>; \<open>btoa\<close> is the browser's Base64 encoder.\<close>

definition login ::
  "(string \<Rightarrow> string) \<Rightarrow> number \<Rightarrow> string \<Rightarrow> string \<Rightarrow> string \<Rightarrow> localStorage
     \<Rightarrow> Session ServiceResponse promise \<times> localStorage" where
  "login btoa now familyId handle pass ls =
     (let fid = toLowerCase (trim familyId);
          username = toLowerCase (trim handle)
      in case parse_or_empty (users_item ls) of
           Inl e \<Rightarrow> (Rejected e, ls)
         | Inr users \<Rightarrow>
             (case find (\<lambda>u. u_familyId u = fid \<and> u_username u = username
                              \<and> u_password u = Some pass) users of
                None \<Rightarrow> (Resolved (failure ''Access Denied. Invalid credentials or Cluster ID.''), ls)
              | Some user \<Rightarrow>
                  (let session = \<lparr> s_token = btoa (u_id user @ '':'' @ string_of_number now),
                         s_userId = u_id user, s_familyId = u_familyId user,
                         s_role = u_role user, s_exp = now + SESSION_DURATION,
                         s_cloudSync = None \<rparr>
                   in (Resolved (succeed session), ls\<lparr> session_item := Stored session \<rparr>))))"

definition getUsers :: "localStorage \<Rightarrow> User list promise" where
  "getUsers ls = (case parse_or_empty (users_item ls) of Inl e \<Rightarrow> Rejected e | Inr xs \<Rightarrow> Resolved xs)"

definition getTransactions :: "localStorage \<Rightarrow> Transaction list promise" where
  "getTransactions ls =
     (case parse_or_empty (transactions_item ls) of Inl e \<Rightarrow> Rejected e | Inr xs \<Rightarrow> Resolved xs)"

definition getRequests :: "localStorage \<Rightarrow> MoneyRequest list promise" where
  "getRequests ls =
     (case parse_or_empty (requests_item ls) of Inl e \<Rightarrow> Rejected e | Inr xs \<Rightarrow> Resolved xs)"

definition getMessages :: "localStorage \<Rightarrow> FamilyMessage list promise" where
  "getMessages ls =
     (case parse_or_empty (messages_item ls) of Inl e \<Rightarrow> Rejected e | Inr xs \<Rightarrow> Resolved xs)"

text \<open>\<open>sendMessage(session, text, toId = 'cluster')\<close>; the default of \<open>toId\<close> is for
  the caller to pass.\<close>

definition sendMessage ::
  "number \<Rightarrow> Session \<Rightarrow> string \<Rightarrow> string \<Rightarrow> localStorage
     \<Rightarrow> FamilyMessage ServiceResponse promise \<times> localStorage" where
  "sendMessage now session txt toId ls =
     (case parse_or_empty (messages_item ls) of
        Inl e \<Rightarrow> (Rejected e, ls)
      | Inr messages \<Rightarrow>
          (let newMessage = \<lparr> m_id = ''msg_'' @ string_of_number now,
                 m_familyId = s_familyId session, m_fromId = s_userId session,
                 m_fromRole = s_role session, m_toId = toId, m_text = txt,
                 m_timestamp = now, m_isRead = False, m_replyToId = None \<rparr>
           in (Resolved (succeed newMessage),
               ls\<lparr> messages_item := Stored (newMessage # messages) \<rparr>)))"

definition saveTransaction ::
  "Session \<Rightarrow> Transaction \<Rightarrow> localStorage
     \<Rightarrow> Transaction ServiceResponse promise \<times> localStorage" where
  "saveTransaction session tx ls =
     (case parse_or_empty (transactions_item ls) of
        Inl e \<Rightarrow> (Rejected e, ls)
      | Inr txs \<Rightarrow> (Resolved (succeed tx), ls\<lparr> transactions_item := Stored (tx # txs) \<rparr>))"

definition createRequest ::
  "number \<Rightarrow> Session \<Rightarrow> double \<Rightarrow> string \<Rightarrow> localStorage
     \<Rightarrow> MoneyRequest ServiceResponse promise \<times> localStorage" where
  "createRequest now session amount reason ls =
     (case parse_or_empty (requests_item ls) of
        Inl e \<Rightarrow> (Rejected e, ls)
      | Inr requests \<Rightarrow>
          (let newRequest = \<lparr> rq_id = ''req_'' @ string_of_number now,
                 rq_childId = s_userId session, rq_amount = amount, rq_reason = reason,
                 rq_status = PENDING, rq_timestamp = now \<rparr>
           in (Resolved (succeed newRequest),
               ls\<lparr> requests_item := Stored (newRequest # requests) \<rparr>)))"

text \<open>\<open>requests.findIndex(r => r.id === requestId)\<close>, \<open>None\<close> for \<open>-1\<close>.\<close>

fun findIndex :: "('a \<Rightarrow> bool) \<Rightarrow> 'a list \<Rightarrow> nat option" where
  "findIndex P [] = None"
| "findIndex P (x # xs) =
     (if P x then Some 0 else (case findIndex P xs of None \<Rightarrow> None | Some i \<Rightarrow> Some (Suc i)))"

definition updateRequestStatus ::
  "Session \<Rightarrow> string \<Rightarrow> RequestStatus \<Rightarrow> localStorage
     \<Rightarrow> bool ServiceResponse promise \<times> localStorage" where
  "updateRequestStatus session requestId status ls =
     (if s_role session \<noteq> HOST then (Resolved (failure ''Unauthorized.''), ls)
      else
        (case parse_or_empty (requests_item ls) of
           Inl e \<Rightarrow> (Rejected e, ls)
         | Inr requests \<Rightarrow>
             (case findIndex (\<lambda>r. rq_id r = requestId) requests of
                None \<Rightarrow> (Resolved (failure ''Not found.''), ls)
              | Some idx \<Rightarrow>
                  (Resolved (succeed True),
                   ls\<lparr> requests_item :=
                         Stored (requests[idx := (requests ! idx)\<lparr> rq_status := status \<rparr>]) \<rparr>))))"

text \<open>\<open>getStoredSession()\<close>: a falsy item gives \<open>null\<close>; the \<open>catch\<close> turns a
  rejected text into \<open>null\<close> and leaves the item in place.\<close>

definition getStoredSession :: "number \<Rightarrow> localStorage \<Rightarrow> Session option \<times> localStorage" where
  "getStoredSession now ls =
     (case session_item ls of
        NoItem \<Rightarrow> (None, ls)
      | EmptyString \<Rightarrow> (None, ls)
      | Malformed \<Rightarrow> (None, ls)
      | Stored session \<Rightarrow>
          (if now > s_exp session then (None, ls\<lparr> session_item := NoItem \<rparr>)
           else (Some session, ls)))"

definition logout :: "localStorage \<Rightarrow> localStorage" where
  "logout ls = ls\<lparr> session_item := NoItem \<rparr>"

text \<open>The key \<open>`onboarded_${userId}`\<close>.\<close>

definition onboarded_key :: "string \<Rightarrow> string" where
  "onboarded_key userId = ''onboarded_'' @ userId"

definition getOnboardingStatus :: "string \<Rightarrow> localStorage \<Rightarrow> bool" where
  "getOnboardingStatus userId ls = (other_items ls (onboarded_key userId) = Some ''true'')"

definition setOnboardingStatus :: "string \<Rightarrow> localStorage \<Rightarrow> localStorage" where
  "setOnboardingStatus userId ls =
     ls\<lparr> other_items := (other_items ls)(onboarded_key userId := Some ''true'') \<rparr>"

section \<open>Sequences of service calls\<close>

text \<open>One call of the service that can write to the storage, with its arguments and
  the clock or random text it reads.\<close>

datatype service_call =
    SignupCluster number string string string
  | ProvisionMember string Session string string
  | Login number string string string
  | SendMessage number Session string string
  | SaveTransaction Session Transaction
  | CreateRequest number Session double string
  | UpdateRequestStatus Session string RequestStatus
  | GetStoredSession number
  | Logout
  | SetOnboardingStatus string

fun exec :: "(string \<Rightarrow> string) \<Rightarrow> service_call \<Rightarrow> localStorage \<Rightarrow> localStorage" where
  "exec btoa (SignupCluster now familyId handle pass) ls =
     snd (signupCluster now familyId handle pass ls)"
| "exec btoa (ProvisionMember rnd session username pass) ls =
     snd (provisionMember rnd session username pass ls)"
| "exec btoa (Login now familyId handle pass) ls = snd (login btoa now familyId handle pass ls)"
| "exec btoa (SendMessage now session txt toId) ls = snd (sendMessage now session txt toId ls)"
| "exec btoa (SaveTransaction session tx) ls = snd (saveTransaction session tx ls)"
| "exec btoa (CreateRequest now session amount reason) ls =
     snd (createRequest now session amount reason ls)"
| "exec btoa (UpdateRequestStatus session requestId status) ls =
     snd (updateRequestStatus session requestId status ls)"
| "exec btoa (GetStoredSession now) ls = snd (getStoredSession now ls)"
| "exec btoa Logout ls = logout ls"
| "exec btoa (SetOnboardingStatus userId) ls = setOnboardingStatus userId ls"

definition run :: "(string \<Rightarrow> string) \<Rightarrow> service_call list \<Rightarrow> localStorage \<Rightarrow> localStorage" where
  "run btoa calls ls = foldl (\<lambda>s c. exec btoa c s) ls calls"

text \<open>The identities in the store, and the pair that must be unique: cluster and handle,
  trimmed and case-folded.\<close>

definition stored_users :: "localStorage \<Rightarrow> User list" where
  "stored_users ls = (case users_item ls of Stored us \<Rightarrow> us | _ \<Rightarrow> [])"

definition identity_key :: "User \<Rightarrow> string \<times> string" where
  "identity_key u = (toLowerCase (trim (u_familyId u)), toLowerCase (trim (u_username u)))"

text \<open>A call that is not a \<open>provisionMember\<close> by a HOST session, or is one whose session
  names its cluster in trimmed lower case, as every session that \<open>login\<close> issues does.\<close>

fun trusted_cluster :: "service_call \<Rightarrow> bool" where
  "trusted_cluster (ProvisionMember rnd session username pass) =
     (s_role session = HOST \<longrightarrow> toLowerCase (trim (s_familyId session)) = s_familyId session)"
| "trusted_cluster _ = True"

text \<open>The invariant of the identity collection: every stored cluster id and handle is
  already trimmed and in lower case, and no (cluster, handle) pair occurs twice; and the
  invariant of the storage: the identity collection is absent or satisfies it.\<close>

definition users_inv :: "User list \<Rightarrow> bool" where
  "users_inv us =
     (list_all (\<lambda>u. toLowerCase (trim (u_familyId u)) = u_familyId u
                   \<and> toLowerCase (trim (u_username u)) = u_username u) us
      \<and> distinct (map (\<lambda>u. (u_familyId u, u_username u)) us))"

definition store_inv :: "localStorage \<Rightarrow> bool" where
  "store_inv ls =
     (case users_item ls of NoItem \<Rightarrow> True | Stored us \<Rightarrow> users_inv us | _ \<Rightarrow> False)"

section \<open>Balances and the analytics engine (src/App.tsx)\<close>

text \<open>The callback of the balance \<open>reduce\<close> (App.tsx:334-336, again at 510 and 519).\<close>

definition balance_step :: "double \<Rightarrow> Transaction \<Rightarrow> double" where
  "balance_step acc t =
     (if tx_type t = CREDIT then dadd acc (tx_amount t) else dsub acc (tx_amount t))"

text \<open>\<open>txs.filter(t => t.userId === id).reduce(..., 0)\<close>: the balance of one identity,
  folded in the order in which the collection holds the transactions.\<close>

definition computeBalance :: "string \<Rightarrow> Transaction list \<Rightarrow> double" where
  "computeBalance identityId txs =
     foldl balance_step (Finite 0) (filter (\<lambda>t. tx_userId t = identityId) txs)"

definition currentBalance :: "Session option \<Rightarrow> Transaction list \<Rightarrow> double" where
  "currentBalance session txs =
     (case session of None \<Rightarrow> Finite 0 | Some s \<Rightarrow> computeBalance (s_userId s) txs)"

record point =
  pt_timestamp :: number
  pt_balance :: double
  pt_date :: string

text \<open>The callback of the time-series \<open>reduce\<close> (App.tsx:66-75) as a function of the
  contents of \<open>acc\<close>; \<open>toLocaleDateString\<close> is the browser's date formatter.\<close>

definition next_point :: "(number \<Rightarrow> string) \<Rightarrow> point list \<Rightarrow> Transaction \<Rightarrow> point" where
  "next_point toLocaleDateString acc tx =
     (let lastBalance = (if length acc > 0 then pt_balance (acc ! (length acc - 1))
                         else Finite 0);
          newBalance = (if tx_type tx = CREDIT then dadd lastBalance (tx_amount tx)
                        else dsub lastBalance (tx_amount tx))
      in \<lparr> pt_timestamp = tx_timestamp tx, pt_balance = newBalance,
           pt_date = toLocaleDateString (tx_timestamp tx) \<rparr>)"

text \<open>The \<open>reduce\<close> itself, on the contents of the sorted array.\<close>

definition running_points :: "(number \<Rightarrow> string) \<Rightarrow> Transaction list \<Rightarrow> point list" where
  "running_points toLocaleDateString sortedTxs =
     foldl (\<lambda>acc tx. acc @ [next_point toLocaleDateString acc tx]) [] sortedTxs"

text \<open>
  The \<open>timeSeries\<close> the engine returns for an array with the given contents: for an
  empty array the engine returns \<open>null\<close> before it builds anything (App.tsx:43), and
  otherwise the series is the \<open>reduce\<close> over
  \<open>[...transactions].sort((a, b) => a.timestamp - b.timestamp)\<close>.
\<close>

definition timeSeries :: "(number \<Rightarrow> string) \<Rightarrow> Transaction list \<Rightarrow> point list option" where
  "timeSeries toLocaleDateString transactions =
     (if length transactions = 0 then None
      else Some (running_points toLocaleDateString (sort_key tx_timestamp transactions)))"

subsection \<open>Arrays and objects as references\<close>

text \<open>
  Arrays and objects of the engine live in a store; an address is an index into it and an
  allocation extends it at the end. The elements of a transaction array are kept by value:
  the engine never writes to a transaction object. Arrays of timestamps and arrays of
  amounts are kept apart, as their elements are.
\<close>

type_synonym addr = nat

record heap =
  txArrays :: "Transaction list list"
  numArrays :: "number list list"
  amountArrays :: "double list list"
  pointArrays :: "point list list"
  objects :: "(TransactionCategory \<times> double) list list"

definition alloc_tx :: "Transaction list \<Rightarrow> heap \<Rightarrow> addr \<times> heap" where
  "alloc_tx xs h = (length (txArrays h), h\<lparr> txArrays := txArrays h @ [xs] \<rparr>)"

definition alloc_num :: "number list \<Rightarrow> heap \<Rightarrow> addr \<times> heap" where
  "alloc_num xs h = (length (numArrays h), h\<lparr> numArrays := numArrays h @ [xs] \<rparr>)"

definition alloc_amounts :: "double list \<Rightarrow> heap \<Rightarrow> addr \<times> heap" where
  "alloc_amounts xs h = (length (amountArrays h), h\<lparr> amountArrays := amountArrays h @ [xs] \<rparr>)"

definition alloc_points :: "point list \<Rightarrow> heap \<Rightarrow> addr \<times> heap" where
  "alloc_points xs h = (length (pointArrays h), h\<lparr> pointArrays := pointArrays h @ [xs] \<rparr>)"

definition alloc_object :: "(TransactionCategory \<times> double) list \<Rightarrow> heap \<Rightarrow> addr \<times> heap" where
  "alloc_object kvs h = (length (objects h), h\<lparr> objects := objects h @ [kvs] \<rparr>)"

text \<open>\<open>a.filter(p)\<close>, \<open>a.map(f)\<close> and \<open>[...a]\<close> build a new array.\<close>

definition filter_tx :: "(Transaction \<Rightarrow> bool) \<Rightarrow> addr \<Rightarrow> heap \<Rightarrow> addr \<times> heap" where
  "filter_tx p a h = alloc_tx (filter p (txArrays h ! a)) h"

definition map_tx_num :: "(Transaction \<Rightarrow> number) \<Rightarrow> addr \<Rightarrow> heap \<Rightarrow> addr \<times> heap" where
  "map_tx_num f a h = alloc_num (map f (txArrays h ! a)) h"

definition map_tx_amount :: "(Transaction \<Rightarrow> double) \<Rightarrow> addr \<Rightarrow> heap \<Rightarrow> addr \<times> heap" where
  "map_tx_amount f a h = alloc_amounts (map f (txArrays h ! a)) h"

definition spread_tx :: "addr \<Rightarrow> heap \<Rightarrow> addr \<times> heap" where
  "spread_tx a h = alloc_tx (txArrays h ! a) h"

definition spread_amounts :: "addr \<Rightarrow> heap \<Rightarrow> addr \<times> heap" where
  "spread_amounts a h = alloc_amounts (amountArrays h ! a) h"

text \<open>
  \<open>a.sort(compare)\<close> sorts the array at \<open>a\<close> in place (stably) and returns \<open>a\<close>. The
  timestamps are whole numbers, so \<open>(a, b) => a.timestamp - b.timestamp\<close> orders by the
  timestamp. The amounts are sorted by the comparator itself, \<open>(a, b) => a - b\<close>: an
  element moves in front of another one when the comparator is negative on the pair.
\<close>

fun insert_with :: "('a \<Rightarrow> 'a \<Rightarrow> bool) \<Rightarrow> 'a \<Rightarrow> 'a list \<Rightarrow> 'a list" where
  "insert_with before x [] = [x]"
| "insert_with before x (y # ys) =
     (if before y x then y # insert_with before x ys else x # y # ys)"

definition sort_with :: "('a \<Rightarrow> 'a \<Rightarrow> bool) \<Rightarrow> 'a list \<Rightarrow> 'a list" where
  "sort_with before xs = foldr (insert_with before) xs []"

definition amount_before :: "double \<Rightarrow> double \<Rightarrow> bool" where
  "amount_before a b = dless (dsub a b) (Finite 0)"

definition sort_tx_by_timestamp :: "addr \<Rightarrow> heap \<Rightarrow> addr \<times> heap" where
  "sort_tx_by_timestamp a h =
     (a, h\<lparr> txArrays := (txArrays h)[a := sort_key tx_timestamp (txArrays h ! a)] \<rparr>)"

definition sort_amounts :: "addr \<Rightarrow> heap \<Rightarrow> addr \<times> heap" where
  "sort_amounts a h =
     (a, h\<lparr> amountArrays :=
            (amountArrays h)[a := sort_with amount_before (amountArrays h ! a)] \<rparr>)"

text \<open>\<open>acc.push(p)\<close>\<close>

definition push_point :: "addr \<Rightarrow> point \<Rightarrow> heap \<Rightarrow> heap" where
  "push_point a p h = h\<lparr> pointArrays := (pointArrays h)[a := pointArrays h ! a @ [p]] \<rparr>"

text \<open>\<open>acc[k]\<close> and \<open>acc[k] = v\<close> on an object whose keys keep their insertion order.\<close>

fun assign :: "'k \<Rightarrow> 'v \<Rightarrow> ('k \<times> 'v) list \<Rightarrow> ('k \<times> 'v) list" where
  "assign k v [] = [(k, v)]"
| "assign k v (p # ps) = (if fst p = k then (k, v) # ps else p # assign k v ps)"

text \<open>The callback of the category \<open>reduce\<close> (App.tsx:59-62) on the contents of \<open>acc\<close>:
  \<open>acc[t.category] = (acc[t.category] || 0) + t.amount\<close>; a missing entry, zero and NaN
  are falsy.\<close>

definition add_category :: "(TransactionCategory \<times> double) list \<Rightarrow> Transaction
    \<Rightarrow> (TransactionCategory \<times> double) list" where
  "add_category acc t =
     assign (tx_category t)
       (dadd (case map_of acc (tx_category t) of
                None \<Rightarrow> Finite 0
              | Some v \<Rightarrow> (if v = Finite 0 \<or> v = NaN then Finite 0 else v))
          (tx_amount t)) acc"

definition set_category :: "addr \<Rightarrow> Transaction \<Rightarrow> heap \<Rightarrow> heap" where
  "set_category a t h = h\<lparr> objects := (objects h)[a := add_category (objects h ! a) t] \<rparr>"

text \<open>\<open>Math.min(...xs)\<close> on a non-empty array.\<close>

definition Math_min :: "number list \<Rightarrow> number" where
  "Math_min xs = foldl min (hd xs) (tl xs)"

text \<open>The numeric expressions of the engine, on the values they read.\<close>

definition totalDebits_of :: "Transaction list \<Rightarrow> double" where
  "totalDebits_of debits = foldl (\<lambda>sum t. dadd sum (tx_amount t)) (Finite 0) debits"

definition burnRate_of :: "number \<Rightarrow> number list \<Rightarrow> double \<Rightarrow> real" where
  "burnRate_of now timestamps totalDebits =
     (let firstTx = (if length timestamps > 0 then Math_min timestamps else now);
          daysSinceStart = max 1 (real_of_int (now - firstTx) / (1000 * 60 * 60 * 24))
      in real_of_double totalDebits / daysSinceStart)"

definition liquidityIndex_of :: "double \<Rightarrow> real \<Rightarrow> real" where
  "liquidityIndex_of balance burnRate =
     (if dless (Finite 0) balance \<and> burnRate > 0 then real_of_double balance / burnRate else 0)"

definition mean_of :: "double list \<Rightarrow> real" where
  "mean_of amounts =
     real_of_double (foldl (\<lambda>a b. dadd a b) (Finite 0) amounts) / real (length amounts)"

definition median_of :: "double list \<Rightarrow> real" where
  "median_of sortedAmounts =
     (if length sortedAmounts mod 2 = 0
      then real_of_double (dadd (sortedAmounts ! (length sortedAmounts div 2 - 1))
                                (sortedAmounts ! (length sortedAmounts div 2))) / 2
      else real_of_double (sortedAmounts ! (length sortedAmounts div 2)))"

definition variance_of :: "double list \<Rightarrow> real \<Rightarrow> real" where
  "variance_of amounts mean =
     foldl (\<lambda>acc amt. acc + (real_of_double amt - mean)\<^sup>2) 0 amounts / real (length amounts)"

record Stats =
  mean :: real
  median :: real
  stdDev :: real
  transactionCount :: nat

record Insights =
  burnRate :: real
  liquidityIndex :: real
  categoryTotals :: addr
  timeSeries_ref :: addr
  stats :: Stats

text \<open>
  The body of the \<open>useMemo\<close> of \<open>GenuineFiscalInsights\<close> (App.tsx:43-93), statement by
  statement. \<open>transactions\<close> is the address of the array the component was given,
  \<open>now\<close> the value of \<open>Date.now()\<close>; \<open>None\<close> is the \<open>null\<close> of an empty array.
\<close>

definition insights ::
  "(number \<Rightarrow> string) \<Rightarrow> number \<Rightarrow> addr \<Rightarrow> double \<Rightarrow> heap \<Rightarrow> Insights option \<times> heap" where
  "insights toLocaleDateString now transactions balance h0 =
     (if length (txArrays h0 ! transactions) = 0 then (None, h0)
      else
        (let (debits, h1) = filter_tx (\<lambda>t. tx_type t = DEBIT) transactions h0;
             totalDebits = totalDebits_of (txArrays h1 ! debits);
             (timestamps, h2) = map_tx_num tx_timestamp transactions h1;
             burnRate = burnRate_of now (numArrays h2 ! timestamps) totalDebits;
             liquidityIndex = liquidityIndex_of balance burnRate;
             (categoryTotals, h3) = alloc_object [] h2;
             h4 = foldl (\<lambda>h t. set_category categoryTotals t h) h3 (txArrays h3 ! debits);
             (copy, h5) = spread_tx transactions h4;
             (sortedTxs, h6) = sort_tx_by_timestamp copy h5;
             (timeSeries, h7) = alloc_points [] h6;
             h8 = foldl (\<lambda>h tx. push_point timeSeries
                          (next_point toLocaleDateString (pointArrays h ! timeSeries) tx) h)
                    h7 (txArrays h7 ! sortedTxs);
             (amounts, h9) = map_tx_amount tx_amount transactions h8;
             mean = mean_of (amountArrays h9 ! amounts);
             (copy2, h10) = spread_amounts amounts h9;
             (sortedAmounts, h11) = sort_amounts copy2 h10;
             median = median_of (amountArrays h11 ! sortedAmounts);
             variance = variance_of (amountArrays h11 ! amounts) mean;
             stdDev = sqrt variance
         in (Some \<lparr> burnRate = burnRate, liquidityIndex = liquidityIndex,
                    categoryTotals = categoryTotals, timeSeries_ref = timeSeries,
                    stats = \<lparr> mean = mean, median = median, stdDev = stdDev,
                              transactionCount = length (txArrays h11 ! transactions) \<rparr> \<rparr>,
             h11)))"

text \<open>What a caller reads off the returned object: the numbers, and the contents of the
  object and the array it refers to.\<close>

record InsightsView =
  v_burnRate :: real
  v_liquidityIndex :: real
  v_categoryTotals :: "(TransactionCategory \<times> double) list"
  v_timeSeries :: "point list"
  v_stats :: Stats

definition view :: "Insights option \<times> heap \<Rightarrow> InsightsView option" where
  "view rh =
     (case fst rh of
        None \<Rightarrow> None
      | Some r \<Rightarrow> Some \<lparr> v_burnRate = burnRate r, v_liquidityIndex = liquidityIndex r,
                        v_categoryTotals = objects (snd rh) ! categoryTotals r,
                        v_timeSeries = pointArrays (snd rh) ! timeSeries_ref r,
                        v_stats = stats r \<rparr>)"

text \<open>The state of the store after a call on a non-empty array with contents \<open>txs\<close>, and
  what the caller reads off the result.\<close>

definition final_heap :: "(number \<Rightarrow> string) \<Rightarrow> Transaction list \<Rightarrow> heap \<Rightarrow> heap" where
  "final_heap f txs h =
     \<lparr> txArrays = txArrays h @ [filter (\<lambda>t. tx_type t = DEBIT) txs, sort_key tx_timestamp txs],
       numArrays = numArrays h @ [map tx_timestamp txs],
       amountArrays = amountArrays h
         @ [map tx_amount txs, sort_with amount_before (map tx_amount txs)],
       pointArrays = pointArrays h @ [running_points f (sort_key tx_timestamp txs)],
       objects = objects h @ [foldl add_category [] (filter (\<lambda>t. tx_type t = DEBIT) txs)] \<rparr>"

definition insights_value ::
  "(number \<Rightarrow> string) \<Rightarrow> number \<Rightarrow> Transaction list \<Rightarrow> double \<Rightarrow> InsightsView option" where
  "insights_value f now txs balance =
     (if txs = [] then None
      else Some \<lparr>
        v_burnRate = burnRate_of now (map tx_timestamp txs)
                       (totalDebits_of (filter (\<lambda>t. tx_type t = DEBIT) txs)),
        v_liquidityIndex = liquidityIndex_of balance
                       (burnRate_of now (map tx_timestamp txs)
                          (totalDebits_of (filter (\<lambda>t. tx_type t = DEBIT) txs))),
        v_categoryTotals = foldl add_category [] (filter (\<lambda>t. tx_type t = DEBIT) txs),
        v_timeSeries = running_points f (sort_key tx_timestamp txs),
        v_stats = \<lparr> mean = mean_of (map tx_amount txs),
                    median = median_of (sort_with amount_before (map tx_amount txs)),
                    stdDev = sqrt (variance_of (map tx_amount txs) (mean_of (map tx_amount txs))),
                    transactionCount = length txs \<rparr> \<rparr>)"

text \<open>The running balances after each transaction of a list, from a starting balance.\<close>

fun points_from :: "(number \<Rightarrow> string) \<Rightarrow> double \<Rightarrow> Transaction list \<Rightarrow> point list" where
  "points_from f b [] = []"
| "points_from f b (t # ts) =
     \<lparr> pt_timestamp = tx_timestamp t, pt_balance = balance_step b t,
       pt_date = f (tx_timestamp t) \<rparr> # points_from f (balance_step b t) ts"

definition last_balance :: "point list \<Rightarrow> double" where
  "last_balance acc = (if acc = [] then Finite 0 else pt_balance (last acc))"

text \<open>
  Amounts on which the sums of the source are exact: every amount is a whole number, and
  the absolute values of the amounts add up to at most \<open>2^53\<close>. The signed amount of a
  transaction is what it adds to a balance in exact arithmetic.
\<close>

definition whole_amount :: "double \<Rightarrow> bool" where
  "whole_amount d = (case d of Finite r \<Rightarrow> of_int \<lfloor>r\<rfloor> = r | _ \<Rightarrow> False)"

definition exact_amounts :: "Transaction list \<Rightarrow> bool" where
  "exact_amounts txs =
     (list_all (\<lambda>t. whole_amount (tx_amount t)) txs
      \<and> sum_list (map (\<lambda>t. \<bar>rat_of_double (tx_amount t)\<bar>) txs) \<le> 2 ^ 53)"

definition signed_amount :: "Transaction \<Rightarrow> rat" where
  "signed_amount t =
     (if tx_type t = CREDIT then rat_of_double (tx_amount t) else - rat_of_double (tx_amount t))"

section \<open>Example data\<close>

definition host_session :: Session where
  "host_session = \<lparr> s_token = ''dV8xOjE='', s_userId = ''u_1'', s_familyId = ''fam1'',
     s_role = HOST, s_exp = 86400001, s_cloudSync = None \<rparr>"

definition member_session :: Session where
  "member_session = \<lparr> s_token = ''dV9hYmM6Mg=='', s_userId = ''u_abc'', s_familyId = ''fam1'',
     s_role = MEMBER, s_exp = 86400002, s_cloudSync = None \<rparr>"

text \<open>A HOST session that names the cluster in upper case.\<close>

definition shouting_session :: Session where
  "shouting_session = host_session \<lparr> s_familyId := ''FAM1'' \<rparr>"

definition tx_of :: "string \<Rightarrow> TransactionType \<Rightarrow> double \<Rightarrow> number \<Rightarrow> Transaction" where
  "tx_of uid kind amt ts = \<lparr> tx_id = ''tx_'' @ string_of_number ts, tx_userId = uid,
     tx_amount = amt, tx_type = kind, tx_category = OTHER, tx_description = ''entry'',
     tx_timestamp = ts \<rparr>"

text \<open>Scenario 5 of the specification, in order and shuffled.\<close>

definition scenario5 :: "Transaction list" where
  "scenario5 = [tx_of ''u_abc'' CREDIT (Finite 1000) 1, tx_of ''u_abc'' DEBIT (Finite 300) 2,
                tx_of ''u_abc'' DEBIT (Finite 200) 3]"

definition scenario5_shuffled :: "Transaction list" where
  "scenario5_shuffled = [tx_of ''u_abc'' DEBIT (Finite 200) 3,
                         tx_of ''u_abc'' CREDIT (Finite 1000) 1,
                         tx_of ''u_abc'' DEBIT (Finite 300) 2]"

text \<open>
  The same scenario with cents: a credit of 1000.10 at time 1, debits of 300.20 at time 2
  and 200.30 at time 3, each amount the double that \<open>parseFloat\<close> gives for the text; in
  the order of time, and in the order in which \<open>saveTransaction\<close> stores them (the newest
  in front).
\<close>

definition credit_1000_10 :: Transaction where
  "credit_1000_10 = tx_of ''u_abc'' CREDIT (round_double (10001 / 10)) 1"

definition debit_300_20 :: Transaction where
  "debit_300_20 = tx_of ''u_abc'' DEBIT (round_double (3002 / 10)) 2"

definition debit_200_30 :: Transaction where
  "debit_200_30 = tx_of ''u_abc'' DEBIT (round_double (2003 / 10)) 3"

definition cents_by_time :: "Transaction list" where
  "cents_by_time = [credit_1000_10, debit_300_20, debit_200_30]"

definition cents_as_stored :: "Transaction list" where
  "cents_as_stored = [debit_200_30, debit_300_20, credit_1000_10]"

text \<open>A credit of minus five to somebody else's account.\<close>

definition foreign_negative_tx :: Transaction where
  "foreign_negative_tx = tx_of ''u_xyz'' CREDIT (Finite (- 5)) 7"

text \<open>The member asks for 500 at time 1; the host approves.\<close>

definition pending_store :: localStorage where
  "pending_store = snd (createRequest 1 member_session (Finite 500) ''books'' empty_storage)"

definition approved_store :: localStorage where
  "approved_store = snd (updateRequestStatus host_session ''req_1'' APPROVED pending_store)"

definition books_request :: "RequestStatus \<Rightarrow> MoneyRequest" where
  "books_request st = \<lparr> rq_id = ''req_1'', rq_childId = ''u_abc'', rq_amount = Finite 500,
     rq_reason = ''books'', rq_status = st, rq_timestamp = 1 \<rparr>"

text \<open>A cluster with its host and one member, and a later member of the same names.\<close>

definition family_calls :: "service_call list" where
  "family_calls = [SignupCluster 1 '' Fam1 '' ''Alice'' ''pw'',
                   ProvisionMember ''abc'' host_session ''Bob'' ''pw2'']"

definition shouting_calls :: "service_call list" where
  "shouting_calls = family_calls @ [ProvisionMember ''xyz'' shouting_session ''bob'' ''pw3'']"

text \<open>The identities these calls store.\<close>

definition alice :: User where
  "alice = \<lparr> u_id = ''u_1'', u_familyId = ''fam1'', u_name = ''Alice'', u_username = ''alice'',
     u_password = Some ''pw'', u_role = HOST, u_parentId = None, u_isActive = True \<rparr>"

definition bob :: User where
  "bob = \<lparr> u_id = ''u_abc'', u_familyId = ''fam1'', u_name = ''Bob'', u_username = ''bob'',
     u_password = Some ''pw2'', u_role = MEMBER, u_parentId = Some ''u_1'', u_isActive = True \<rparr>"

definition loud_bob :: User where
  "loud_bob = \<lparr> u_id = ''u_xyz'', u_familyId = ''FAM1'', u_name = ''bob'', u_username = ''bob'',
     u_password = Some ''pw3'', u_role = MEMBER, u_parentId = Some ''u_1'', u_isActive = True \<rparr>"

text \<open>The transactions of two identities in one collection.\<close>

definition mixed_credits :: "Transaction list" where
  "mixed_credits = [tx_of ''u_abc'' CREDIT (Finite 100) 1, tx_of ''u_xyz'' CREDIT (Finite 50) 2]"

text \<open>A store that holds one array: a debit of 100 at time 0.\<close>

definition one_debit_heap :: heap where
  "one_debit_heap = \<lparr> txArrays = [[tx_of ''u_abc'' DEBIT (Finite 100) 0]], numArrays = [],
     amountArrays = [], pointArrays = [], objects = [] \<rparr>"

definition scenario5_heap :: heap where
  "scenario5_heap = \<lparr> txArrays = [scenario5_shuffled], numArrays = [], amountArrays = [],
     pointArrays = [], objects = [] \<rparr>"

definition no_date :: "number \<Rightarrow> string" where
  "no_date t = []"

section \<open>Properties\<close>

subsection \<open>Reading and writing the collections\<close>

lemma parse_or_empty_simps [simp]:
  "parse_or_empty NoItem = Inr []" "parse_or_empty EmptyString = Inr []"
  "parse_or_empty Malformed = Inl SyntaxError" "parse_or_empty (Stored xs) = Inr xs"
  by (simp_all add: parse_or_empty_def)

lemma req_1: "''req_'' @ string_of_number 1 = ''req_1''"
  by (simp add: string_of_number_def string_of_nat.simps decimal_digits_def)

lemma pending_store_eq:
  "pending_store = empty_storage\<lparr> requests_item := Stored [books_request PENDING] \<rparr>"
  by (simp add: pending_store_def createRequest_def Let_def empty_storage_def member_session_def
      books_request_def req_1 del: append.simps)







text \<open>
  C8 as stated does not hold. When the stored text of a collection is one the parser
  rejects, each of the four reads raises: the promise is rejected with the SyntaxError
  instead of resolving to an empty collection.
\<close>

theorem reads_reject_malformed_counterexample:
  "getUsers (empty_storage\<lparr> users_item := Malformed \<rparr>) = Rejected SyntaxError
   \<and> getTransactions (empty_storage\<lparr> transactions_item := Malformed \<rparr>) = Rejected SyntaxError
   \<and> getRequests (empty_storage\<lparr> requests_item := Malformed \<rparr>) = Rejected SyntaxError
   \<and> getMessages (empty_storage\<lparr> messages_item := Malformed \<rparr>) = Rejected SyntaxError"
  by (simp add: getUsers_def getTransactions_def getRequests_def getMessages_def)

text \<open>
  C8, amended. Each of the four collection reads returns the empty collection when nothing
  or the empty string is stored under its key, and the stored collection when there is
  one; when the stored text is rejected by the parser the read raises the SyntaxError to
  its caller.
\<close>

theorem reads_by_item:
  "getUsers ls = (case users_item ls of NoItem \<Rightarrow> Resolved [] | EmptyString \<Rightarrow> Resolved []
                  | Malformed \<Rightarrow> Rejected SyntaxError | Stored xs \<Rightarrow> Resolved xs)
   \<and> getTransactions ls
       = (case transactions_item ls of NoItem \<Rightarrow> Resolved [] | EmptyString \<Rightarrow> Resolved []
          | Malformed \<Rightarrow> Rejected SyntaxError | Stored xs \<Rightarrow> Resolved xs)
   \<and> getRequests ls
       = (case requests_item ls of NoItem \<Rightarrow> Resolved [] | EmptyString \<Rightarrow> Resolved []
          | Malformed \<Rightarrow> Rejected SyntaxError | Stored xs \<Rightarrow> Resolved xs)
   \<and> getMessages ls
       = (case messages_item ls of NoItem \<Rightarrow> Resolved [] | EmptyString \<Rightarrow> Resolved []
          | Malformed \<Rightarrow> Rejected SyntaxError | Stored xs \<Rightarrow> Resolved xs)"
  by (simp add: getUsers_def getTransactions_def getRequests_def getMessages_def
      parse_or_empty_def split: slot.splits)

subsection \<open>The stored session\<close>

text \<open>
  C6 as stated does not hold at the boundary. A session that expires at 86400002 is read
  at exactly that time: \<open>expiresAt \<le> now\<close>, yet the session is returned and stays stored.
\<close>

theorem getStoredSession_boundary_counterexample:
  "s_exp member_session \<le> 86400002
   \<and> getStoredSession 86400002 (empty_storage\<lparr> session_item := Stored member_session \<rparr>)
       = (Some member_session, empty_storage\<lparr> session_item := Stored member_session \<rparr>)"
  by (simp add: getStoredSession_def member_session_def)

text \<open>
  C6, amended. \<open>getStoredSession\<close> never returns a session whose \<open>exp\<close> lies before
  \<open>now\<close>: a session it returns is the stored one, has \<open>now \<le> exp\<close>, and the storage is
  unchanged; a stored session with \<open>exp < now\<close> is removed and absence is returned; every
  stored session with \<open>now \<le> exp\<close>, the one with \<open>exp = now\<close> included, is returned and
  the storage is unchanged; and when no session is stored, or the stored text is empty or
  rejected by the parser, absence is returned and the storage is unchanged.
\<close>

theorem getStoredSession_expiry:
  "(fst (getStoredSession now ls) = Some s \<longrightarrow>
      now \<le> s_exp s \<and> session_item ls = Stored s \<and> snd (getStoredSession now ls) = ls)
   \<and> (session_item ls = Stored s \<and> s_exp s < now \<longrightarrow>
      getStoredSession now ls = (None, ls\<lparr> session_item := NoItem \<rparr>))
   \<and> (session_item ls = Stored s \<and> now \<le> s_exp s \<longrightarrow>
      getStoredSession now ls = (Some s, ls))
   \<and> (session_item ls = Stored s \<and> s_exp s = now \<longrightarrow>
      getStoredSession now ls = (Some s, ls))
   \<and> (session_item ls = NoItem \<or> session_item ls = EmptyString \<or> session_item ls = Malformed
        \<longrightarrow> getStoredSession now ls = (None, ls))"
  by (auto simp: getStoredSession_def split: slot.splits if_splits)

theorem getStoredSession_expiry_witness:
  "fst (getStoredSession 5 (empty_storage\<lparr> session_item := Stored member_session \<rparr>))
     = Some member_session
   \<and> 5 \<le> s_exp member_session
   \<and> session_item (empty_storage\<lparr> session_item := Stored member_session \<rparr>) = Stored member_session
   \<and> getStoredSession 5 (empty_storage\<lparr> session_item := Stored member_session \<rparr>)
       = (Some member_session, empty_storage\<lparr> session_item := Stored member_session \<rparr>)
   \<and> s_exp member_session < 86400003
   \<and> getStoredSession 86400003 (empty_storage\<lparr> session_item := Stored member_session \<rparr>)
       = (None, empty_storage)
   \<and> s_exp member_session = 86400002
   \<and> getStoredSession 86400002 (empty_storage\<lparr> session_item := Stored member_session \<rparr>)
       = (Some member_session, empty_storage\<lparr> session_item := Stored member_session \<rparr>)
   \<and> session_item (empty_storage\<lparr> session_item := Malformed \<rparr>) = Malformed
   \<and> getStoredSession 5 (empty_storage\<lparr> session_item := Malformed \<rparr>)
       = (None, empty_storage\<lparr> session_item := Malformed \<rparr>)"
proof -
  let ?ls = "empty_storage\<lparr> session_item := Stored member_session \<rparr>"
  let ?bad = "empty_storage\<lparr> session_item := Malformed \<rparr>"
  have a: "fst (getStoredSession 5 ?ls) = Some member_session"
    by (simp add: getStoredSession_def member_session_def)
  have b: "session_item ?ls = Stored member_session" by simp
  have c: "s_exp member_session = 86400002" by (simp add: member_session_def)
  have d: "?ls\<lparr> session_item := NoItem \<rparr> = empty_storage" by (simp add: empty_storage_def)
  have m: "session_item ?bad = Malformed" by simp
  show ?thesis
    using getStoredSession_expiry [of 5 ?ls member_session]
          getStoredSession_expiry [of 86400003 ?ls member_session]
          getStoredSession_expiry [of 86400002 ?ls member_session]
          getStoredSession_expiry [of 5 ?bad member_session]
    by (simp add: a b c d m)
qed

subsection \<open>Resolving a request\<close>

lemma findIndex_None: "(findIndex P xs = None) = (\<forall>x\<in>set xs. \<not> P x)"
  by (induction xs) (auto split: option.splits)

lemma findIndex_first:
  "i < length xs \<Longrightarrow> P (xs ! i) \<Longrightarrow> \<forall>j<i. \<not> P (xs ! j) \<Longrightarrow> findIndex P xs = Some i"
proof (induction xs arbitrary: i)
  case Nil
  then show ?case by simp
next
  case (Cons x xs)
  show ?case
  proof (cases i)
    case 0
    with Cons.prems show ?thesis by simp
  next
    case (Suc k)
    from Cons.prems(3) Suc have nx: "\<not> P x" by auto
    from Cons.prems(3) Suc have "\<forall>j<k. \<not> P (xs ! j)" by auto
    with Cons.prems Suc have "findIndex P xs = Some k" by (intro Cons.IH) auto
    with nx Suc show ?thesis by simp
  qed
qed

lemma findIndex_Some:
  "findIndex P ys = Some k \<Longrightarrow> k < length ys \<and> P (ys ! k) \<and> (\<forall>j<k. \<not> P (ys ! j))"
proof (induction ys arbitrary: k)
  case Nil
  then show ?case by simp
next
  case (Cons y ys)
  show ?case
  proof (cases "P y")
    case True
    with Cons.prems show ?thesis by simp
  next
    case False
    with Cons.prems obtain k' where k': "findIndex P ys = Some k'" "k = Suc k'"
      by (auto split: option.splits)
    from Cons.IH [OF k'(1)] False k'(2) show ?thesis
      by (auto simp: less_Suc_eq_0_disj)
  qed
qed

lemma first_index_exists:
  assumes "\<exists>x\<in>set xs. P x"
  shows "\<exists>i<length xs. P (xs ! i) \<and> (\<forall>j<i. \<not> P (xs ! j))"
proof -
  from assms have "findIndex P xs \<noteq> None" by (simp add: findIndex_None)
  then obtain i where "findIndex P xs = Some i" by blast
  then show ?thesis using findIndex_Some by blast
qed

lemma approved_store_eq:
  "approved_store = empty_storage\<lparr> requests_item := Stored [books_request APPROVED] \<rparr>"
  by (simp add: approved_store_def pending_store_eq updateRequestStatus_def host_session_def
      books_request_def)

text \<open>
  C2 as stated does not hold. The member's request has been approved; the host then calls
  \<open>updateRequestStatus\<close> on the same id with REJECTED, and again with PENDING: both calls
  succeed and overwrite the status. No call fails with an invalid-transition error.
\<close>

theorem updateRequestStatus_reenters_counterexample:
  "getRequests approved_store = Resolved [books_request APPROVED]
   \<and> updateRequestStatus host_session ''req_1'' REJECTED approved_store
       = (Resolved (succeed True),
          empty_storage\<lparr> requests_item := Stored [books_request REJECTED] \<rparr>)
   \<and> updateRequestStatus host_session ''req_1'' PENDING approved_store
       = (Resolved (succeed True),
          empty_storage\<lparr> requests_item := Stored [books_request PENDING] \<rparr>)"
  by (simp add: approved_store_eq getRequests_def updateRequestStatus_def host_session_def
      books_request_def)

text \<open>
  C2, amended. \<open>updateRequestStatus\<close> fails with \<open>Unauthorized.\<close> for a session that is
  not a HOST, whatever is stored. For a HOST session: when the stored text of the requests
  is rejected by the parser the call raises; when the collection can be read and no
  request has the id the call fails with \<open>Not found.\<close>; in these cases the storage is
  unchanged. Otherwise, for a HOST session and a readable collection in which some request
  has the id, there is a first such request, and the call succeeds and sets the status of
  that request to the new status, whatever its current status is, and changes nothing
  else: the service has no check of the transition.
\<close>

theorem updateRequestStatus_overwrites:
  "(s_role session \<noteq> HOST \<longrightarrow>
      updateRequestStatus session requestId status ls = (Resolved (failure ''Unauthorized.''), ls))
   \<and> (s_role session = HOST \<and> parse_or_empty (requests_item ls) = Inl e \<longrightarrow>
      updateRequestStatus session requestId status ls = (Rejected e, ls))
   \<and> (s_role session = HOST \<and> parse_or_empty (requests_item ls) = Inr requests
        \<and> (\<forall>r\<in>set requests. rq_id r \<noteq> requestId) \<longrightarrow>
      updateRequestStatus session requestId status ls = (Resolved (failure ''Not found.''), ls))
   \<and> (s_role session = HOST \<and> parse_or_empty (requests_item ls) = Inr requests
        \<and> i < length requests \<and> rq_id (requests ! i) = requestId
        \<and> (\<forall>j<i. rq_id (requests ! j) \<noteq> requestId) \<longrightarrow>
      updateRequestStatus session requestId status ls
        = (Resolved (succeed True),
           ls\<lparr> requests_item :=
                Stored (requests[i := (requests ! i)\<lparr> rq_status := status \<rparr>]) \<rparr>))
   \<and> ((\<exists>r\<in>set requests. rq_id r = requestId) \<longrightarrow>
      (\<exists>i<length requests. rq_id (requests ! i) = requestId
          \<and> (\<forall>j<i. rq_id (requests ! j) \<noteq> requestId)))"
proof (intro conjI impI)
  assume "s_role session \<noteq> HOST"
  then show "updateRequestStatus session requestId status ls
      = (Resolved (failure ''Unauthorized.''), ls)"
    by (simp add: updateRequestStatus_def)
next
  assume "s_role session = HOST \<and> parse_or_empty (requests_item ls) = Inl e"
  then show "updateRequestStatus session requestId status ls = (Rejected e, ls)"
    by (simp add: updateRequestStatus_def)
next
  assume a: "s_role session = HOST \<and> parse_or_empty (requests_item ls) = Inr requests
        \<and> (\<forall>r\<in>set requests. rq_id r \<noteq> requestId)"
  then have "findIndex (\<lambda>r. rq_id r = requestId) requests = None"
    by (simp add: findIndex_None)
  with a show "updateRequestStatus session requestId status ls
      = (Resolved (failure ''Not found.''), ls)"
    by (simp add: updateRequestStatus_def)
next
  assume a: "s_role session = HOST \<and> parse_or_empty (requests_item ls) = Inr requests
        \<and> i < length requests \<and> rq_id (requests ! i) = requestId
        \<and> (\<forall>j<i. rq_id (requests ! j) \<noteq> requestId)"
  then have "findIndex (\<lambda>r. rq_id r = requestId) requests = Some i"
    by (intro findIndex_first) auto
  with a show "updateRequestStatus session requestId status ls
        = (Resolved (succeed True),
           ls\<lparr> requests_item :=
                Stored (requests[i := (requests ! i)\<lparr> rq_status := status \<rparr>]) \<rparr>)"
    by (simp add: updateRequestStatus_def)
next
  assume "\<exists>r\<in>set requests. rq_id r = requestId"
  then show "\<exists>i<length requests. rq_id (requests ! i) = requestId
          \<and> (\<forall>j<i. rq_id (requests ! j) \<noteq> requestId)"
    using first_index_exists [of requests "\<lambda>r. rq_id r = requestId"] by blast
qed

theorem updateRequestStatus_overwrites_witness:
  "s_role member_session \<noteq> HOST
   \<and> updateRequestStatus member_session ''req_1'' APPROVED pending_store
       = (Resolved (failure ''Unauthorized.''), pending_store)
   \<and> s_role host_session = HOST
   \<and> parse_or_empty (requests_item (empty_storage\<lparr> requests_item := Malformed \<rparr>))
       = Inl SyntaxError
   \<and> updateRequestStatus host_session ''req_1'' APPROVED
        (empty_storage\<lparr> requests_item := Malformed \<rparr>)
       = (Rejected SyntaxError, empty_storage\<lparr> requests_item := Malformed \<rparr>)
   \<and> parse_or_empty (requests_item pending_store) = Inr [books_request PENDING]
   \<and> rq_id (books_request PENDING) \<noteq> ''req_2''
   \<and> updateRequestStatus host_session ''req_2'' APPROVED pending_store
       = (Resolved (failure ''Not found.''), pending_store)
   \<and> rq_id ([books_request PENDING] ! 0) = ''req_1''
   \<and> updateRequestStatus host_session ''req_1'' APPROVED pending_store
       = (Resolved (succeed True), approved_store)
   \<and> list_ex (\<lambda>r. rq_id r = ''req_1'') [books_request PENDING]
   \<and> (\<exists>i<length [books_request PENDING]. rq_id ([books_request PENDING] ! i) = ''req_1''
         \<and> (\<forall>j<i. rq_id ([books_request PENDING] ! j) \<noteq> ''req_1''))"
proof -
  let ?bad = "empty_storage\<lparr> requests_item := Malformed \<rparr>"
  have m: "s_role member_session \<noteq> HOST" by (simp add: member_session_def)
  have h: "s_role host_session = HOST" by (simp add: host_session_def)
  have p: "parse_or_empty (requests_item pending_store) = Inr [books_request PENDING]"
    by (simp add: pending_store_eq)
  have q: "parse_or_empty (requests_item ?bad) = Inl SyntaxError" by simp
  have n: "\<forall>r\<in>set [books_request PENDING]. rq_id r \<noteq> ''req_2''"
    by (simp add: books_request_def)
  have f: "(0::nat) < length [books_request PENDING]
      \<and> rq_id ([books_request PENDING] ! 0) = ''req_1''
      \<and> (\<forall>j<(0::nat). rq_id ([books_request PENDING] ! j) \<noteq> ''req_1'')"
    by (simp add: books_request_def)
  have u: "pending_store\<lparr> requests_item :=
      Stored ([books_request PENDING][0 := ([books_request PENDING] ! 0)\<lparr> rq_status := APPROVED \<rparr>]) \<rparr>
      = approved_store"
    by (simp add: approved_store_eq pending_store_eq books_request_def)
  note T = updateRequestStatus_overwrites
  have 1: "updateRequestStatus member_session ''req_1'' APPROVED pending_store
       = (Resolved (failure ''Unauthorized.''), pending_store)"
    using T [of member_session "''req_1''" APPROVED pending_store SyntaxError "[]" 0] m by blast
  have 2: "updateRequestStatus host_session ''req_1'' APPROVED ?bad = (Rejected SyntaxError, ?bad)"
    using T [of host_session "''req_1''" APPROVED ?bad SyntaxError "[]" 0] h q by blast
  have 3: "updateRequestStatus host_session ''req_2'' APPROVED pending_store
       = (Resolved (failure ''Not found.''), pending_store)"
    using T [of host_session "''req_2''" APPROVED pending_store SyntaxError
            "[books_request PENDING]" 0] h p n by blast
  have 4: "updateRequestStatus host_session ''req_1'' APPROVED pending_store
       = (Resolved (succeed True), approved_store)"
    using T [of host_session "''req_1''" APPROVED pending_store SyntaxError
            "[books_request PENDING]" 0] h p f unfolding u [symmetric] by blast
  have r2: "rq_id (books_request PENDING) \<noteq> ''req_2''" by (simp add: books_request_def)
  have r1: "rq_id ([books_request PENDING] ! 0) = ''req_1''" by (simp add: books_request_def)
  have x: "\<exists>r\<in>set [books_request PENDING]. rq_id r = ''req_1''"
    by (simp add: books_request_def)
  then have x': "list_ex (\<lambda>r. rq_id r = ''req_1'') [books_request PENDING]"
    by (simp only: list_ex_iff)
  have 5: "\<exists>i<length [books_request PENDING]. rq_id ([books_request PENDING] ! i) = ''req_1''
         \<and> (\<forall>j<i. rq_id ([books_request PENDING] ! j) \<noteq> ''req_1'')"
    using T [of host_session "''req_1''" APPROVED pending_store SyntaxError
            "[books_request PENDING]" 0] x by blast
  show ?thesis
    by (intro conjI m 1 h q 2 p r2 3 r1 4 x' 5)
qed

subsection \<open>The onboarding flag\<close>

lemma onboarded_key_inj: "(onboarded_key a = onboarded_key b) = (a = b)"
  by (simp add: onboarded_key_def)

lemma onboarded_key_not_json: "onboarded_key u \<notin> set json_keys"
  by (simp add: onboarded_key_def json_keys_def USERS_KEY_def TRANSACTIONS_KEY_def
      REQUESTS_KEY_def MESSAGES_KEY_def SESSION_KEY_def)

lemma other_items_exec:
  "other_items (exec btoa c ls)
     = (case c of SetOnboardingStatus j \<Rightarrow> (other_items ls)(onboarded_key j := Some ''true'')
        | _ \<Rightarrow> other_items ls)"
  by (cases c)
     (simp_all add: signupCluster_def provisionMember_def login_def sendMessage_def
        saveTransaction_def createRequest_def updateRequestStatus_def getStoredSession_def
        logout_def setOnboardingStatus_def Let_def split: sum.splits option.splits slot.splits)

lemma getOnboardingStatus_exec:
  "getOnboardingStatus uid (exec btoa c ls)
     = (getOnboardingStatus uid ls \<or> c = SetOnboardingStatus uid)"
  by (auto simp: getOnboardingStatus_def other_items_exec onboarded_key_inj
      split: service_call.splits)

lemma getOnboardingStatus_run:
  "getOnboardingStatus uid (run btoa calls ls)
     = (getOnboardingStatus uid ls \<or> SetOnboardingStatus uid \<in> set calls)"
  unfolding run_def
  by (induction calls arbitrary: ls) (auto simp: getOnboardingStatus_exec)

text \<open>
  C10. In the empty storage \<open>getOnboardingStatus\<close> is false for every identity; after any
  sequence of service calls from the empty storage it is true for an identity exactly when
  \<open>setOnboardingStatus\<close> was called for that identity; it is true right after the call;
  and \<open>setOnboardingStatus\<close> for one identity leaves the status of every other unchanged.
\<close>

theorem onboarding_round_trip:
  "getOnboardingStatus uid empty_storage = False
   \<and> getOnboardingStatus uid (run btoa calls empty_storage)
       = (SetOnboardingStatus uid \<in> set calls)
   \<and> getOnboardingStatus uid (setOnboardingStatus uid ls) = True
   \<and> (other \<noteq> uid \<longrightarrow>
        getOnboardingStatus uid (setOnboardingStatus other ls) = getOnboardingStatus uid ls)"
proof -
  have e: "getOnboardingStatus uid empty_storage = False"
    by (simp add: getOnboardingStatus_def empty_storage_def)
  show ?thesis
    using e getOnboardingStatus_run [of uid btoa calls empty_storage]
          getOnboardingStatus_exec [of uid btoa "SetOnboardingStatus uid" ls]
          getOnboardingStatus_exec [of uid btoa "SetOnboardingStatus other" ls]
    by auto
qed

theorem onboarding_round_trip_witness:
  "getOnboardingStatus ''u_1'' (run (\<lambda>s. s) (family_calls @ [SetOnboardingStatus ''u_1'']) empty_storage)
   \<and> \<not> getOnboardingStatus ''u_abc'' (run (\<lambda>s. s) (family_calls @ [SetOnboardingStatus ''u_1'']) empty_storage)
   \<and> ''u_1'' \<noteq> ''u_abc''
   \<and> getOnboardingStatus ''u_abc'' (setOnboardingStatus ''u_1'' empty_storage)
       = getOnboardingStatus ''u_abc'' empty_storage"
  using onboarding_round_trip [of "''u_1''" "\<lambda>s. s" "family_calls @ [SetOnboardingStatus ''u_1'']"
          empty_storage "''u_abc''"]
        onboarding_round_trip [of "''u_abc''" "\<lambda>s. s" "family_calls @ [SetOnboardingStatus ''u_1'']"
          empty_storage "''u_1''"]
  by (simp add: family_calls_def)

subsection \<open>The identity registry\<close>

lemma is_space_lower_char: "is_space (lower_char c) = is_space c"
  by (auto simp: is_space_def lower_char_def Let_def)

lemma lower_char_idem: "lower_char (lower_char c) = lower_char c"
  by (auto simp: lower_char_def Let_def)

lemma dropWhile_space_lower:
  "dropWhile is_space (map lower_char s) = map lower_char (dropWhile is_space s)"
  by (induction s) (simp_all add: is_space_lower_char)

lemma trim_toLowerCase: "trim (toLowerCase s) = toLowerCase (trim s)"
  by (simp add: trim_def toLowerCase_def dropWhile_space_lower rev_map)

lemma dropWhile_fixed: "xs = [] \<or> \<not> P (hd xs) \<Longrightarrow> dropWhile P xs = xs"
  by (cases xs) auto

lemma trim_idem: "trim (trim s) = trim s"
proof -
  define t where "t = dropWhile is_space s"
  define u where "u = dropWhile is_space (rev t)"
  have ts: "trim s = rev u" by (simp add: trim_def t_def u_def)
  show ?thesis
  proof (cases "u = []")
    case True
    with ts have e: "trim s = []" by simp
    show ?thesis unfolding e by (simp add: trim_def)
  next
    case False
    have hu: "\<not> is_space (hd u)" using False unfolding u_def by (rule hd_dropWhile)
    have "rev t = takeWhile is_space (rev t) @ u" by (simp add: u_def)
    then have split: "t = rev u @ rev (takeWhile is_space (rev t))"
      by (metis rev_append rev_rev_ident)
    then have hdt: "hd t = hd (rev u)" using False by (metis hd_append2 rev_is_Nil_conv)
    have "t \<noteq> []" using split False by auto
    then have "\<not> is_space (hd t)" unfolding t_def by (rule hd_dropWhile)
    then have 1: "dropWhile is_space (rev u) = rev u" using hdt by (intro dropWhile_fixed) simp
    have 2: "dropWhile is_space u = u" using hu by (intro dropWhile_fixed) simp
    show ?thesis by (simp add: ts) (simp add: trim_def 1 2)
  qed
qed

lemma toLowerCase_idem: "toLowerCase (toLowerCase s) = toLowerCase s"
  by (simp add: toLowerCase_def lower_char_idem)

lemma normalize_idem: "toLowerCase (trim (toLowerCase (trim s))) = toLowerCase (trim s)"
  by (simp add: trim_toLowerCase trim_idem toLowerCase_idem)

lemma find_None_pairs:
  "(find (\<lambda>u. u_familyId u = f \<and> u_username u = n) us = None)
     = ((f, n) \<notin> set (map (\<lambda>u. (u_familyId u, u_username u)) us))"
  by (auto simp: find_None_iff)

lemma users_inv_Nil: "users_inv []"
  by (simp add: users_inv_def)

lemma users_inv_snoc:
  assumes "users_inv us"
    and "toLowerCase (trim (u_familyId u)) = u_familyId u"
    and "toLowerCase (trim (u_username u)) = u_username u"
    and "find (\<lambda>x. u_familyId x = u_familyId u \<and> u_username x = u_username u) us = None"
  shows "users_inv (us @ [u])"
  using assms by (simp add: users_inv_def find_None_pairs)

lemma users_inv_keys: "users_inv us \<Longrightarrow> map identity_key us = map (\<lambda>u. (u_familyId u, u_username u)) us"
  by (simp add: users_inv_def identity_key_def list_all_iff)

lemma store_inv_parse:
  "store_inv ls \<Longrightarrow> \<exists>us. parse_or_empty (users_item ls) = Inr us \<and> users_inv us \<and> stored_users ls = us"
  by (auto simp: store_inv_def parse_or_empty_def stored_users_def users_inv_Nil split: slot.splits)

lemma store_inv_Stored: "users_inv us \<Longrightarrow> store_inv (ls\<lparr> users_item := Stored us \<rparr>)"
  by (simp add: store_inv_def)

lemma signupCluster_inv:
  assumes "store_inv ls"
  shows "store_inv (snd (signupCluster now f h p ls))"
proof -
  from assms obtain us where us: "parse_or_empty (users_item ls) = Inr us" "users_inv us"
    using store_inv_parse by blast
  show ?thesis
    using assms us(2)
    by (simp add: signupCluster_def us(1) Let_def store_inv_Stored users_inv_snoc normalize_idem)
qed

lemma provisionMember_inv:
  assumes "store_inv ls"
    and "s_role s = HOST \<longrightarrow> toLowerCase (trim (s_familyId s)) = s_familyId s"
  shows "store_inv (snd (provisionMember rnd s n p ls))"
proof (cases "s_role s = HOST")
  case False
  with assms(1) show ?thesis by (simp add: provisionMember_def)
next
  case True
  from assms obtain us where us: "parse_or_empty (users_item ls) = Inr us" "users_inv us"
    using store_inv_parse by blast
  show ?thesis
    using assms True us(2)
    by (simp add: provisionMember_def us(1) Let_def store_inv_Stored users_inv_snoc normalize_idem)
qed

lemma exec_inv: "store_inv ls \<Longrightarrow> trusted_cluster c \<Longrightarrow> store_inv (exec btoa c ls)"
proof (cases c)
  case (SignupCluster now f h p)
  assume "store_inv ls" then show ?thesis using SignupCluster by (simp add: signupCluster_inv)
next
  case (ProvisionMember rnd s n p)
  assume "store_inv ls" "trusted_cluster c"
  then show ?thesis using ProvisionMember by (simp add: provisionMember_inv)
qed (auto simp: store_inv_def login_def sendMessage_def saveTransaction_def createRequest_def
       updateRequestStatus_def getStoredSession_def logout_def setOnboardingStatus_def Let_def
       split: slot.splits sum.splits option.splits)

lemma run_inv: "store_inv ls \<Longrightarrow> list_all trusted_cluster calls \<Longrightarrow> store_inv (run btoa calls ls)"
  unfolding run_def by (induction calls arbitrary: ls) (simp_all add: exec_inv)

lemma store_inv_empty: "store_inv empty_storage"
  by (simp add: store_inv_def empty_storage_def)

lemma store_inv_distinct: "store_inv ls \<Longrightarrow> distinct (map identity_key (stored_users ls))"
  by (auto simp: store_inv_def stored_users_def users_inv_keys users_inv_def split: slot.splits)

lemma signupCluster_duplicate:
  assumes "store_inv ls"
    and "(toLowerCase (trim f), toLowerCase (trim h)) \<in> set (map identity_key (stored_users ls))"
  shows "signupCluster now f h p ls
           = (Resolved (failure ''Identity handle already provisioned in this cluster.''), ls)"
proof -
  from assms obtain us where us: "users_item ls = Stored us" "users_inv us"
    by (auto simp: store_inv_def stored_users_def split: slot.splits)
  with assms(2) have "find (\<lambda>u. u_familyId u = toLowerCase (trim f)
      \<and> u_username u = toLowerCase (trim h)) us \<noteq> None"
    by (simp add: find_None_pairs stored_users_def users_inv_keys)
  then show ?thesis by (simp add: signupCluster_def us parse_or_empty_def Let_def)
qed

lemma provisionMember_duplicate:
  assumes "store_inv ls" and "s_role s = HOST"
    and "(s_familyId s, toLowerCase (trim n)) \<in> set (map identity_key (stored_users ls))"
  shows "provisionMember rnd s n p ls
           = (Resolved (failure ''Member handle already provisioned.''), ls)"
proof -
  from assms obtain us where us: "users_item ls = Stored us" "users_inv us"
    by (auto simp: store_inv_def stored_users_def split: slot.splits)
  with assms(3) have "find (\<lambda>u. u_familyId u = s_familyId s
      \<and> u_username u = toLowerCase (trim n)) us \<noteq> None"
    by (simp add: find_None_pairs stored_users_def users_inv_keys)
  then show ?thesis by (simp add: provisionMember_def us parse_or_empty_def Let_def assms(2))
qed

lemma login_session_trusted:
  assumes "store_inv ls" and "login btoa now f h p ls = (Resolved r, ls')" and "data r = Some session"
  shows "toLowerCase (trim (s_familyId session)) = s_familyId session"
  using assms
  by (auto simp: login_def store_inv_def users_inv_def parse_or_empty_def Let_def failure_def
      succeed_def list_all_iff find_Some_iff normalize_idem split: slot.splits option.splits)

lemma u_1: "''u_'' @ string_of_number 1 = ''u_1''"
  by (simp add: string_of_number_def string_of_nat.simps decimal_digits_def)

lemma norm_Fam1: "toLowerCase (trim '' Fam1 '') = ''fam1''"
  by code_simp

lemma norm_Alice: "toLowerCase (trim ''Alice'') = ''alice''"
  by code_simp

lemma norm_Bob: "toLowerCase (trim ''Bob'') = ''bob''"
  by code_simp

lemma norm_bob: "toLowerCase (trim ''bob'') = ''bob''"
  by code_simp

lemma norm_fam1: "toLowerCase (trim ''fam1'') = ''fam1''"
  by code_simp

lemma norm_FAM1: "toLowerCase (trim ''FAM1'') = ''fam1''"
  by code_simp

lemma norm_alice: "toLowerCase (trim '' ALICE'') = ''alice''"
  by code_simp


lemma family_store:
  "run btoa family_calls empty_storage = empty_storage\<lparr> users_item := Stored [alice, bob] \<rparr>"
  by (simp add: run_def family_calls_def signupCluster_def provisionMember_def Let_def
      empty_storage_def host_session_def norm_Fam1 norm_Alice norm_Bob u_1 alice_def bob_def
      del: append.simps) simp

lemma run_append: "run btoa (xs @ ys) ls = run btoa ys (run btoa xs ls)"
  by (simp add: run_def)

lemma run_single: "run btoa [c] ls = exec btoa c ls"
  by (simp add: run_def)

lemma shouting_store:
  "run btoa shouting_calls empty_storage
     = empty_storage\<lparr> users_item := Stored [alice, bob, loud_bob] \<rparr>"
  unfolding shouting_calls_def run_append family_store run_single
  by (simp add: provisionMember_def Let_def shouting_session_def host_session_def norm_bob
      alice_def bob_def loud_bob_def)

text \<open>
  C3 as stated does not hold. After the host Alice has provisioned Bob in cluster
  \<open>fam1\<close>, a HOST session that names the cluster \<open>FAM1\<close> provisions \<open>bob\<close> again:
  \<open>provisionMember\<close> compares and stores \<open>session.familyId\<close> as it is, so the call succeeds
  and two stored identities share the same trimmed, case-folded (cluster, handle) pair.
\<close>

theorem registry_duplicate_counterexample:
  "stored_users (run (\<lambda>s. s) shouting_calls empty_storage) = [alice, bob, loud_bob]
   \<and> identity_key bob = identity_key loud_bob
   \<and> \<not> distinct (map identity_key (stored_users (run (\<lambda>s. s) shouting_calls empty_storage)))"
  by (simp add: shouting_store stored_users_def identity_key_def bob_def loud_bob_def norm_fam1
      norm_FAM1 norm_bob)

text \<open>
  C3, amended. For every sequence of service calls from the empty storage in which every
  HOST session passed to \<open>provisionMember\<close> names its cluster in trimmed lower case (as
  every session issued by \<open>login\<close> does), no two stored identities share the same
  (cluster, handle) pair after trimming and case-folding; a \<open>signupCluster\<close> whose pair is
  already stored, and a \<open>provisionMember\<close> by a HOST session whose cluster and handle are
  already stored, fail with the duplicate error and leave the storage unchanged.
\<close>

theorem registry_identities_unique:
  assumes "list_all trusted_cluster calls" and "ls = run btoa calls empty_storage"
  shows "distinct (map identity_key (stored_users ls))
    \<and> ((toLowerCase (trim familyId), toLowerCase (trim handle)) \<in> set (map identity_key (stored_users ls))
         \<longrightarrow> signupCluster now familyId handle pass ls
               = (Resolved (failure ''Identity handle already provisioned in this cluster.''), ls))
    \<and> (s_role session = HOST
         \<and> (s_familyId session, toLowerCase (trim username)) \<in> set (map identity_key (stored_users ls))
         \<longrightarrow> provisionMember rnd session username pass ls
               = (Resolved (failure ''Member handle already provisioned.''), ls))"
proof -
  have inv: "store_inv ls" using assms by (simp add: run_inv store_inv_empty)
  show ?thesis
    using inv by (simp add: store_inv_distinct signupCluster_duplicate provisionMember_duplicate)
qed

theorem registry_identities_unique_witness:
  "list_all trusted_cluster family_calls
   \<and> stored_users (run (\<lambda>s. s) family_calls empty_storage) = [alice, bob]
   \<and> distinct (map identity_key (stored_users (run (\<lambda>s. s) family_calls empty_storage)))
   \<and> (toLowerCase (trim ''FAM1''), toLowerCase (trim '' ALICE''))
        \<in> set (map identity_key (stored_users (run (\<lambda>s. s) family_calls empty_storage)))
   \<and> signupCluster 9 ''FAM1'' '' ALICE'' ''x'' (run (\<lambda>s. s) family_calls empty_storage)
       = (Resolved (failure ''Identity handle already provisioned in this cluster.''),
          run (\<lambda>s. s) family_calls empty_storage)
   \<and> s_role host_session = HOST
   \<and> (s_familyId host_session, toLowerCase (trim ''Bob''))
        \<in> set (map identity_key (stored_users (run (\<lambda>s. s) family_calls empty_storage)))
   \<and> provisionMember ''q'' host_session ''Bob'' ''x'' (run (\<lambda>s. s) family_calls empty_storage)
       = (Resolved (failure ''Member handle already provisioned.''),
          run (\<lambda>s. s) family_calls empty_storage)"
proof -
  let ?ls = "run (\<lambda>s. s) family_calls empty_storage"
  have t: "list_all trusted_cluster family_calls"
    by (simp add: family_calls_def host_session_def norm_fam1)
  have u: "stored_users ?ls = [alice, bob]"
    by (simp add: family_store stored_users_def)
  have k: "identity_key alice = (''fam1'', ''alice'')" "identity_key bob = (''fam1'', ''bob'')"
    by (simp_all add: identity_key_def alice_def bob_def norm_fam1 norm_bob) code_simp
  have h: "s_role host_session = HOST \<and> s_familyId host_session = ''fam1''"
    by (simp add: host_session_def)
  show ?thesis
    using registry_identities_unique [where calls = family_calls and btoa = "\<lambda>s. s"
            and ls = "run (\<lambda>s. s) family_calls empty_storage" and familyId = "''FAM1''"
            and handle = "'' ALICE''" and session = host_session and username = "''Bob''"
            and now = 9 and pass = "''x''" and rnd = "''q''"]
    by (simp add: t u k h norm_FAM1 norm_alice norm_Bob)
qed

subsection \<open>Double arithmetic\<close>

text \<open>
  \<^const>\<open>ilog2\<close> is the binary exponent of a positive rational, so
  \<^const>\<open>round_double\<close> can be evaluated from an exponent and a significand that are
  given: the result is the nearest multiple of \<open>2 powi (e - 52)\<close>. Whole numbers up to
  \<open>2 ^ 53\<close> in magnitude are doubles, and rounding leaves them alone.
\<close>

lemma two_powi_Suc: "(2::rat) powi (k + 1) = 2 * 2 powi k"
  by (simp add: power_int_add)

lemma halvings_bounds:
  "1 \<le> x \<Longrightarrow> 0 \<le> halvings x \<and> 2 powi (halvings x) \<le> x \<and> x < 2 powi (halvings x + 1)"
proof (induction x rule: halvings.induct)
  case (1 x)
  show ?case
  proof (cases "2 \<le> x")
    case True
    define h where "h = halvings (x / 2)"
    from True have "1 \<le> x / 2" by simp
    with 1 True have ih: "0 \<le> h" "2 powi h \<le> x / 2" "x / 2 < 2 powi (h + 1)"
      unfolding h_def by blast+
    have hx: "halvings x = h + 1" using True by (simp add: halvings.simps [of x] h_def)
    have "2 powi (h + 1) \<le> x" using ih(2) two_powi_Suc [of h] by linarith
    moreover have "x < 2 powi (h + 1 + 1)" using ih(3) two_powi_Suc [of "h + 1"] by linarith
    moreover have "0 \<le> h + 1" using ih(1) by simp
    ultimately show ?thesis unfolding hx by blast
  next
    case False
    then have h: "halvings x = 0" by (simp add: halvings.simps [of x])
    from False 1(2) show ?thesis unfolding h by simp
  qed
qed

lemma doublings_bounds:
  "0 < x \<Longrightarrow> x < 1 \<Longrightarrow>
     1 \<le> doublings x \<and> 2 powi (- doublings x) \<le> x \<and> x < 2 powi (- doublings x + 1)"
proof (induction x rule: doublings.induct)
  case (1 x)
  define d where "d = doublings (2 * x)"
  have hx: "doublings x = d + 1" using 1(2,3) by (simp add: doublings.simps [of x] d_def)
  show ?case
  proof (cases "2 * x < 1")
    case True
    with 1 have ih: "1 \<le> d" "2 powi (- d) \<le> 2 * x" "2 * x < 2 powi (- d + 1)"
      unfolding d_def by simp_all
    have a: "(2::rat) powi (- d) = 2 * 2 powi (- (d + 1))"
      using two_powi_Suc [of "- (d + 1)"] by simp
    have b: "(2::rat) powi (- d + 1) = 2 * 2 powi (- (d + 1) + 1)"
      using two_powi_Suc [of "- d"] by simp
    have "2 powi (- (d + 1)) \<le> x" using ih(2) a by linarith
    moreover have "x < 2 powi (- (d + 1) + 1)" using ih(3) b by linarith
    moreover have "1 \<le> d + 1" using ih(1) by simp
    ultimately show ?thesis unfolding hx by blast
  next
    case False
    then have z: "d = 0" by (simp add: doublings.simps [of "2 * x"] d_def)
    have "(2::rat) powi (- (0 + 1)) = 1 / 2" by (simp add: power_int_minus)
    moreover have "(2::rat) powi (- (0 + 1) + 1) = 1" by simp
    ultimately show ?thesis using False 1(3) unfolding hx z by simp
  qed
qed

lemma ilog2_bounds:
  assumes "0 < x"
  shows "2 powi (ilog2 x) \<le> x \<and> x < 2 powi (ilog2 x + 1)"
proof (cases "1 \<le> x")
  case True
  then show ?thesis using halvings_bounds [of x] by (simp add: ilog2_def)
next
  case False
  then show ?thesis using doublings_bounds [of x] assms by (simp add: ilog2_def)
qed

lemma ilog2_unique:
  assumes "2 powi e \<le> x" and "x < 2 powi (e + 1)"
  shows "ilog2 x = e"
proof -
  have "(0::rat) < 2 powi e" by simp
  with assms(1) have pos: "0 < x" by linarith
  note b = ilog2_bounds [OF pos]
  have "(2::rat) powi e < 2 powi (ilog2 x + 1)" using assms(1) b by linarith
  then have 1: "e < ilog2 x + 1"
    by (metis linorder_not_less one_le_numeral power_int_increasing)
  have "(2::rat) powi (ilog2 x) < 2 powi (e + 1)" using assms(2) b by linarith
  then have 2: "ilog2 x < e + 1"
    by (metis linorder_not_less one_le_numeral power_int_increasing)
  from 1 2 show ?thesis by simp
qed

lemma round_even_near:
  assumes "\<bar>q - of_int n\<bar> < 1 / 2"
  shows "round_even q = n"
proof (cases "of_int n \<le> q")
  case True
  with assms have "\<lfloor>q\<rfloor> = n" by (intro floor_unique) auto
  with assms True show ?thesis by (simp add: round_even_def Let_def)
next
  case False
  with assms have f: "\<lfloor>q\<rfloor> = n - 1" by (intro floor_unique) auto
  with assms False show ?thesis by (simp add: round_even_def Let_def)
qed

lemma round_even_of_int [simp]: "round_even (of_int n) = n"
  by (rule round_even_near) simp

lemma round_double_at:
  assumes "2 powi e \<le> \<bar>x\<bar>" and "\<bar>x\<bar> < 2 powi (e + 1)" and "- 1022 \<le> e"
    and "round_even (x / 2 powi (e - 52)) = n"
    and "\<bar>of_int n * 2 powi (e - 52)\<bar> < (2::rat) ^ 1024"
  shows "round_double x = Finite (of_int n * 2 powi (e - 52))"
proof -
  have e: "ilog2 \<bar>x\<bar> = e" using assms(1,2) by (rule ilog2_unique)
  have "(0::rat) < 2 powi e" by simp
  with assms(1) have "0 < \<bar>x\<bar>" by linarith
  then have nz: "x \<noteq> 0" by simp
  have m: "max e (- 1022) = e" using assms(3) by simp
  show ?thesis
    using assms(5) by (simp add: round_double_def nz e m assms(4) Let_def)
qed

lemma round_double_eval:
  assumes "2 powi e \<le> \<bar>x\<bar>" and "\<bar>x\<bar> < 2 powi (e + 1)" and "- 1022 \<le> e"
    and "\<bar>x / 2 powi (e - 52) - of_int n\<bar> < 1 / 2"
    and "\<bar>of_int n * 2 powi (e - 52)\<bar> < (2::rat) ^ 1024"
  shows "round_double x = Finite (of_int n * 2 powi (e - 52))"
  using assms(1-3) round_even_near [OF assms(4)] assms(5) by (rule round_double_at)

lemma round_double_whole:
  assumes "\<bar>k\<bar> \<le> 2 ^ 53"
  shows "round_double (of_int k) = Finite (of_int k)"
proof (cases "k = 0")
  case True
  then show ?thesis by (simp add: round_double_def)
next
  case False
  define x :: rat where "x = of_int k"
  define e where "e = ilog2 \<bar>x\<bar>"
  have ax: "\<bar>x\<bar> = of_int \<bar>k\<bar>" by (simp add: x_def)
  have "1 \<le> \<bar>k\<bar>" using False by linarith
  then have one: "1 \<le> \<bar>x\<bar>" unfolding ax by (simp only: of_int_1_le_iff)
  have top: "\<bar>x\<bar> \<le> 2 ^ 53" unfolding ax using assms by (metis of_int_le_iff of_int_numeral of_int_power)
  have b: "2 powi e \<le> \<bar>x\<bar>" "\<bar>x\<bar> < 2 powi (e + 1)"
    using ilog2_bounds [of "\<bar>x\<bar>"] one unfolding e_def by simp_all
  have e0: "0 \<le> e" using halvings_bounds [OF one] by (simp add: e_def ilog2_def one)
  have e53: "e \<le> 53"
  proof (rule ccontr)
    assume "\<not> e \<le> 53"
    then have "54 \<le> e" by simp
    then have "(2::rat) powi 54 \<le> 2 powi e" by (intro power_int_increasing) simp_all
    with b(1) top show False by simp
  qed
  show ?thesis
  proof (cases "e = 53")
    case True
    with b(1) top have "\<bar>x\<bar> = 2 ^ 53" by simp
    then have "of_int \<bar>k\<bar> = (of_int (2 ^ 53) :: rat)" unfolding ax by simp
    then have "\<bar>k\<bar> = 2 ^ 53" by (simp only: of_int_eq_iff)
    then have k: "k = 2 ^ 53 \<or> k = - (2 ^ 53)" by linarith
    have "round_double (of_int k) = Finite (of_int (k div 2) * 2 powi (53 - 52))"
      using k by (intro round_double_eval) auto
    also have "of_int (k div 2) * 2 powi (53 - 52) = (of_int k :: rat)" using k by auto
    finally show ?thesis .
  next
    case False
    with e53 have le: "e \<le> 52" by simp
    define m where "m = nat (52 - e)"
    have u: "(2::rat) powi (e - 52) = 1 / 2 ^ m"
    proof -
      have em: "e - 52 = - int m" using le by (simp add: m_def)
      show ?thesis unfolding em by (simp add: power_int_minus divide_inverse)
    qed
    have q: "x / 2 powi (e - 52) = of_int (k * 2 ^ m)" by (simp add: u x_def)
    have r: "of_int (k * 2 ^ m) * 2 powi (e - 52) = x" by (simp add: u x_def)
    have "round_double x = Finite (of_int (k * 2 ^ m) * 2 powi (e - 52))"
    proof (rule round_double_eval)
      show "2 powi e \<le> \<bar>x\<bar>" by (rule b(1))
      show "\<bar>x\<bar> < 2 powi (e + 1)" by (rule b(2))
      show "- 1022 \<le> e" using e0 by simp
      show "\<bar>x / 2 powi (e - 52) - of_int (k * 2 ^ m)\<bar> < 1 / 2" unfolding q by simp
      have "\<bar>x\<bar> < (2::rat) ^ 1024" using top by (rule order.strict_trans1) simp
      then show "\<bar>of_int (k * 2 ^ m) * 2 powi (e - 52)\<bar> < (2::rat) ^ 1024" unfolding r .
    qed
    then show ?thesis unfolding r by (simp add: x_def)
  qed
qed

text \<open>
  The amounts 1000.10, 300.20 and 200.30 as \<open>parseFloat\<close> reads them, and the two orders
  of folding them: a credit followed by two debits, and the two debits followed by the
  credit.  The second subtraction of the first order is a tie, rounded to the even
  significand.
\<close>

lemma parse_1000_10: "round_double (10001 / 10) = Finite (8796972631510221 / 8796093022208)"
proof -
  have r: "round_double (10001 / 10) = Finite (of_int (8796972631510221) * 2 powi (9 - 52))"
    by (rule round_double_eval) (simp_all add: power_int_minus)
  have v: "of_int (8796972631510221) * 2 powi (9 - 52) = (8796972631510221 / 8796093022208 :: rat)"
    by (simp add: power_int_minus)
  show ?thesis unfolding r v ..
qed

lemma parse_300_20: "round_double (1501 / 5) = Finite (5281174250533683 / 17592186044416)"
proof -
  have r: "round_double (1501 / 5) = Finite (of_int (5281174250533683) * 2 powi (8 - 52))"
    by (rule round_double_eval) (simp_all add: power_int_minus)
  have v: "of_int (5281174250533683) * 2 powi (8 - 52) = (5281174250533683 / 17592186044416 :: rat)"
    by (simp add: power_int_minus)
  show ?thesis unfolding r v ..
qed

lemma parse_200_30: "round_double (2003 / 10) = Finite (3523714864696525 / 17592186044416)"
proof -
  have r: "round_double (2003 / 10) = Finite (of_int (7047429729393050) * 2 powi (7 - 52))"
    by (rule round_double_eval) (simp_all add: power_int_minus)
  have v: "of_int (7047429729393050) * 2 powi (7 - 52) = (3523714864696525 / 17592186044416 :: rat)"
    by (simp add: power_int_minus)
  show ?thesis unfolding r v ..
qed

lemma by_time_1: "dadd (Finite (0)) (Finite (8796972631510221 / 8796093022208)) = Finite (8796972631510221 / 8796093022208)"
proof -
  have s: "0 + 8796972631510221 / 8796093022208 = (8796972631510221 / 8796093022208 :: rat)"
    by simp
  have r: "round_double (8796972631510221 / 8796093022208) = Finite (of_int (8796972631510221) * 2 powi (9 - 52))"
    by (rule round_double_eval) (simp_all add: power_int_minus)
  have v: "of_int (8796972631510221) * 2 powi (9 - 52) = (8796972631510221 / 8796093022208 :: rat)"
    by (simp add: power_int_minus)
  show ?thesis by (simp only: dadd.simps s r v)
qed

lemma by_time_2: "dsub (Finite (8796972631510221 / 8796093022208)) (Finite (5281174250533683 / 17592186044416)) = Finite (1539096376560845 / 2199023255552)"
proof -
  have s: "8796972631510221 / 8796093022208 + - (5281174250533683 / 17592186044416) = (12312771012486759 / 17592186044416 :: rat)"
    by simp
  have f: "\<lfloor>12312771012486759 / 2 :: rat\<rfloor> = 6156385506243379"
    by (rule floor_unique) simp_all
  have r: "round_double (12312771012486759 / 17592186044416) = Finite (of_int (6156385506243380) * 2 powi (9 - 52))"
    by (rule round_double_at) (simp_all add: power_int_minus round_even_def Let_def f)
  have v: "of_int (6156385506243380) * 2 powi (9 - 52) = (1539096376560845 / 2199023255552 :: rat)"
    by (simp add: power_int_minus)
  show ?thesis by (simp only: dsub_def dneg.simps dadd.simps s r v)
qed

lemma by_time_3: "dsub (Finite (1539096376560845 / 2199023255552)) (Finite (3523714864696525 / 17592186044416)) = Finite (8789056147790235 / 17592186044416)"
proof -
  have s: "1539096376560845 / 2199023255552 + - (3523714864696525 / 17592186044416) = (8789056147790235 / 17592186044416 :: rat)"
    by simp
  have r: "round_double (8789056147790235 / 17592186044416) = Finite (of_int (8789056147790235) * 2 powi (8 - 52))"
    by (rule round_double_eval) (simp_all add: power_int_minus)
  have v: "of_int (8789056147790235) * 2 powi (8 - 52) = (8789056147790235 / 17592186044416 :: rat)"
    by (simp add: power_int_minus)
  show ?thesis by (simp only: dsub_def dneg.simps dadd.simps s r v)
qed

lemma as_stored_1: "dsub (Finite (0)) (Finite (3523714864696525 / 17592186044416)) = Finite (- (3523714864696525 / 17592186044416))"
proof -
  have s: "0 + - (3523714864696525 / 17592186044416) = (- (3523714864696525 / 17592186044416) :: rat)"
    by simp
  have r: "round_double (- (3523714864696525 / 17592186044416)) = Finite (of_int (-7047429729393050) * 2 powi (7 - 52))"
    by (rule round_double_eval) (simp_all add: power_int_minus)
  have v: "of_int (-7047429729393050) * 2 powi (7 - 52) = (- (3523714864696525 / 17592186044416) :: rat)"
    by (simp add: power_int_minus)
  show ?thesis by (simp only: dsub_def dneg.simps dadd.simps s r v)
qed

lemma as_stored_2: "dsub (Finite (- (3523714864696525 / 17592186044416))) (Finite (5281174250533683 / 17592186044416)) = Finite (- (1001 / 2))"
proof -
  have s: "- (3523714864696525 / 17592186044416) + - (5281174250533683 / 17592186044416) = (- (1001 / 2) :: rat)"
    by simp
  have r: "round_double (- (1001 / 2)) = Finite (of_int (-8804889115230208) * 2 powi (8 - 52))"
    by (rule round_double_eval) (simp_all add: power_int_minus)
  have v: "of_int (-8804889115230208) * 2 powi (8 - 52) = (- (1001 / 2) :: rat)"
    by (simp add: power_int_minus)
  show ?thesis by (simp only: dsub_def dneg.simps dadd.simps s r v)
qed

lemma as_stored_3: "dadd (Finite (- (1001 / 2))) (Finite (8796972631510221 / 8796093022208)) = Finite (4394528073895117 / 8796093022208)"
proof -
  have s: "- (1001 / 2) + 8796972631510221 / 8796093022208 = (4394528073895117 / 8796093022208 :: rat)"
    by simp
  have r: "round_double (4394528073895117 / 8796093022208) = Finite (of_int (8789056147790234) * 2 powi (8 - 52))"
    by (rule round_double_eval) (simp_all add: power_int_minus)
  have v: "of_int (8789056147790234) * 2 powi (8 - 52) = (4394528073895117 / 8796093022208 :: rat)"
    by (simp add: power_int_minus)
  show ?thesis by (simp only: dadd.simps s r v)
qed

subsection \<open>Balances\<close>

lemma whole_amount_int: "whole_amount d \<Longrightarrow> \<exists>k. d = Finite (of_int k)"
  by (cases d) (auto simp add: whole_amount_def dest: sym)

lemma dadd_whole:
  "\<bar>a + b\<bar> \<le> 2 ^ 53 \<Longrightarrow> dadd (Finite (of_int a)) (Finite (of_int b)) = Finite (of_int (a + b))"
  using round_double_whole [of "a + b"] by simp

lemma dsub_whole:
  "\<bar>a - b\<bar> \<le> 2 ^ 53 \<Longrightarrow> dsub (Finite (of_int a)) (Finite (of_int b)) = Finite (of_int (a - b))"
  using round_double_whole [of "a - b"] by (simp add: dsub_def)

lemma balance_step_whole:
  assumes "tx_amount t = Finite (of_int k)" and "\<bar>a\<bar> + \<bar>k\<bar> \<le> 2 ^ 53"
  shows "balance_step (Finite (of_int a)) t
           = Finite (of_int (if tx_type t = CREDIT then a + k else a - k))"
proof (cases "tx_type t = CREDIT")
  case True
  have "\<bar>a + k\<bar> \<le> 2 ^ 53" using assms(2) by linarith
  then have "dadd (Finite (of_int a)) (Finite (of_int k)) = Finite (of_int (a + k))"
    by (rule dadd_whole)
  then show ?thesis using True by (simp only: balance_step_def assms(1) simp_thms if_True)
next
  case False
  have "\<bar>a - k\<bar> \<le> 2 ^ 53" using assms(2) by linarith
  then have "dsub (Finite (of_int a)) (Finite (of_int k)) = Finite (of_int (a - k))"
    by (rule dsub_whole)
  then show ?thesis using False by (simp only: balance_step_def assms(1) simp_thms if_False)
qed

lemma abs_amounts_nonneg: "0 \<le> sum_list (map (\<lambda>t. \<bar>rat_of_double (tx_amount t)\<bar>) ts)"
  by (rule sum_list_nonneg) auto

lemma foldl_balance_step_exact:
  assumes "list_all (\<lambda>t. whole_amount (tx_amount t)) ts"
    and "of_int \<bar>a\<bar> + sum_list (map (\<lambda>t. \<bar>rat_of_double (tx_amount t)\<bar>) ts) \<le> 2 ^ 53"
  shows "foldl balance_step (Finite (of_int a)) ts
           = Finite (of_int a + sum_list (map signed_amount ts))"
  using assms
proof (induction ts arbitrary: a)
  case Nil
  show ?case by simp
next
  case (Cons t ts)
  from Cons.prems(1) have "whole_amount (tx_amount t)" by simp
  then obtain k where k: "tx_amount t = Finite (of_int k)" using whole_amount_int by blast
  let ?rest = "sum_list (map (\<lambda>t. \<bar>rat_of_double (tx_amount t)\<bar>) ts)"
  let ?b = "if tx_type t = CREDIT then a + k else a - k"
  have rest: "0 \<le> ?rest" by (rule abs_amounts_nonneg)
  have bound: "(of_int \<bar>a\<bar> :: rat) + of_int \<bar>k\<bar> + ?rest \<le> 2 ^ 53"
    using Cons.prems(2) by (simp add: k rat_of_double_def)
  then have "(of_int (\<bar>a\<bar> + \<bar>k\<bar>) :: rat) \<le> of_int (2 ^ 53)" using rest by simp
  then have ak: "\<bar>a\<bar> + \<bar>k\<bar> \<le> 2 ^ 53" by (simp only: of_int_le_iff)
  have step: "balance_step (Finite (of_int a)) t = Finite (of_int ?b)"
    using k ak by (rule balance_step_whole)
  have "\<bar>?b\<bar> \<le> \<bar>a\<bar> + \<bar>k\<bar>" by (simp add: abs_triangle_ineq abs_triangle_ineq4)
  then have "(of_int \<bar>?b\<bar> :: rat) \<le> of_int (\<bar>a\<bar> + \<bar>k\<bar>)" by (simp only: of_int_le_iff)
  then have b: "of_int \<bar>?b\<bar> + ?rest \<le> 2 ^ 53" using bound by simp
  have all: "list_all (\<lambda>t. whole_amount (tx_amount t)) ts" using Cons.prems(1) by simp
  have signed: "(of_int ?b :: rat) = of_int a + signed_amount t"
    by (simp add: signed_amount_def k rat_of_double_def)
  have "foldl balance_step (Finite (of_int a)) (t # ts) = foldl balance_step (Finite (of_int ?b)) ts"
    by (simp only: foldl_Cons step)
  also have "\<dots> = Finite (of_int ?b + sum_list (map signed_amount ts))"
    using all b by (rule Cons.IH)
  also have "\<dots> = Finite (of_int a + sum_list (map signed_amount (t # ts)))"
    unfolding signed by simp
  finally show ?case .
qed

lemma foldl_balance_step_sum:
  assumes "exact_amounts ts"
  shows "foldl balance_step (Finite 0) ts = Finite (sum_list (map signed_amount ts))"
  using foldl_balance_step_exact [of ts 0] assms by (simp add: exact_amounts_def)

lemma signed_amounts_split:
  "sum_list (map signed_amount ts)
     = sum_list (map (\<lambda>t. rat_of_double (tx_amount t)) (filter (\<lambda>t. tx_type t = CREDIT) ts))
       - sum_list (map (\<lambda>t. rat_of_double (tx_amount t)) (filter (\<lambda>t. tx_type t = DEBIT) ts))"
proof (induction ts)
  case Nil
  show ?case by simp
next
  case (Cons t ts)
  then show ?case by (cases "tx_type t") (simp_all add: signed_amount_def)
qed

lemma sum_list_map_mset:
  fixes g :: "'a \<Rightarrow> rat"
  assumes "mset xs = mset ys"
  shows "sum_list (map g xs) = sum_list (map g ys)"
proof -
  have "sum_list (map g xs) = sum_mset (image_mset g (mset xs))"
    by (simp only: sum_mset_sum_list [symmetric] mset_map)
  also have "\<dots> = sum_mset (image_mset g (mset ys))" by (simp only: assms)
  also have "\<dots> = sum_list (map g ys)"
    by (simp only: sum_mset_sum_list [symmetric] mset_map)
  finally show ?thesis .
qed

lemma exact_amounts_mset:
  assumes "mset xs = mset ys"
  shows "exact_amounts xs = exact_amounts ys"
proof -
  have "set xs = set ys" using assms by (rule mset_eq_setD)
  then show ?thesis
    by (simp add: exact_amounts_def list_all_iff
        sum_list_map_mset [OF assms, of "\<lambda>t. \<bar>rat_of_double (tx_amount t)\<bar>"])
qed

lemma filter_mset_eq:
  "mset xs = mset ys \<Longrightarrow> mset (filter p xs) = mset (filter p ys)"
  by (simp only: mset_filter)

lemma computeBalance_sum:
  assumes "exact_amounts (filter (\<lambda>t. tx_userId t = uid) txs)"
  shows "computeBalance uid txs
           = Finite (sum_list (map signed_amount (filter (\<lambda>t. tx_userId t = uid) txs)))"
  unfolding computeBalance_def using assms by (rule foldl_balance_step_sum)

lemma computeBalance_snoc:
  "computeBalance uid (txs @ [t])
     = (if tx_userId t = uid then balance_step (computeBalance uid txs) t
        else computeBalance uid txs)"
  by (simp add: computeBalance_def)

lemma tx_amount_cents:
  "tx_amount credit_1000_10 = Finite (8796972631510221 / 8796093022208)"
  "tx_amount debit_300_20 = Finite (5281174250533683 / 17592186044416)"
  "tx_amount debit_200_30 = Finite (3523714864696525 / 17592186044416)"
  by (simp_all add: credit_1000_10_def debit_300_20_def debit_200_30_def tx_of_def
      parse_1000_10 parse_300_20 parse_200_30)

lemma tx_kind_cents:
  "tx_type credit_1000_10 = CREDIT" "tx_type debit_300_20 = DEBIT" "tx_type debit_200_30 = DEBIT"
  "tx_userId credit_1000_10 = ''u_abc''" "tx_userId debit_300_20 = ''u_abc''"
  "tx_userId debit_200_30 = ''u_abc''"
  "tx_timestamp credit_1000_10 = 1" "tx_timestamp debit_300_20 = 2"
  "tx_timestamp debit_200_30 = 3"
  by (simp_all add: credit_1000_10_def debit_300_20_def debit_200_30_def tx_of_def)

lemma balance_steps_by_time:
  "balance_step (Finite 0) credit_1000_10 = Finite (8796972631510221 / 8796093022208)"
  "balance_step (Finite (8796972631510221 / 8796093022208)) debit_300_20
     = Finite (1539096376560845 / 2199023255552)"
  "balance_step (Finite (1539096376560845 / 2199023255552)) debit_200_30
     = Finite (8789056147790235 / 17592186044416)"
  by (simp_all only: balance_step_def tx_kind_cents tx_amount_cents by_time_1 by_time_2
      by_time_3 simp_thms if_True if_False TransactionType.distinct)

lemma balance_steps_as_stored:
  "balance_step (Finite 0) debit_200_30 = Finite (- (3523714864696525 / 17592186044416))"
  "balance_step (Finite (- (3523714864696525 / 17592186044416))) debit_300_20
     = Finite (- (1001 / 2))"
  "balance_step (Finite (- (1001 / 2))) credit_1000_10
     = Finite (4394528073895117 / 8796093022208)"
  by (simp_all only: balance_step_def tx_kind_cents tx_amount_cents as_stored_1 as_stored_2
      as_stored_3 simp_thms if_True if_False TransactionType.distinct)

lemma fold_cents_by_time:
  "foldl balance_step (Finite 0) cents_by_time = Finite (8789056147790235 / 17592186044416)"
  by (simp only: cents_by_time_def foldl_Cons foldl_Nil balance_steps_by_time)

lemma fold_cents_as_stored:
  "foldl balance_step (Finite 0) cents_as_stored = Finite (4394528073895117 / 8796093022208)"
  by (simp only: cents_as_stored_def foldl_Cons foldl_Nil balance_steps_as_stored)

lemma cents_own:
  "filter (\<lambda>t. tx_userId t = ''u_abc'') cents_by_time = cents_by_time"
  "filter (\<lambda>t. tx_userId t = ''u_abc'') cents_as_stored = cents_as_stored"
  by (simp_all add: cents_by_time_def cents_as_stored_def tx_kind_cents)

lemma cents_perm: "mset cents_as_stored = mset cents_by_time"
  by (simp add: cents_by_time_def cents_as_stored_def)

text \<open>
  C4 as stated does not hold. The balance is a left fold of double additions and
  subtractions over the identity's transactions in the order in which the collection
  holds them (App.tsx:332-338), and a double sum depends on the order of its terms. A
  credit of 1000.10 followed by debits of 300.20 and 200.30 folds to
  \<open>8789056147790235 / 2^44\<close>, which prints as 499.6000000000001; the same three
  transactions with the newest in front, as \<open>saveTransaction\<close> stores them, fold to
  \<open>4394528073895117 / 2^43\<close>, which prints as 499.6 and is the credit minus the debits.
\<close>

theorem computeBalance_order_counterexample:
  "mset cents_as_stored = mset cents_by_time
   \<and> computeBalance ''u_abc'' cents_by_time = Finite (8789056147790235 / 17592186044416)
   \<and> computeBalance ''u_abc'' cents_as_stored = Finite (4394528073895117 / 8796093022208)
   \<and> computeBalance ''u_abc'' cents_by_time \<noteq> computeBalance ''u_abc'' cents_as_stored
   \<and> rat_of_double (tx_amount credit_1000_10) - rat_of_double (tx_amount debit_300_20)
       - rat_of_double (tx_amount debit_200_30) = 4394528073895117 / 8796093022208"
  by (simp add: cents_perm computeBalance_def cents_own fold_cents_by_time fold_cents_as_stored
      tx_amount_cents rat_of_double_def)

text \<open>
  C4, amended. For every identity and every transaction sequence the balance is the left
  fold, from 0, of double additions (CREDIT) and subtractions (any other type) over the
  identity's transactions in the order of the sequence: it is 0 on the empty sequence, a
  transaction of another identity leaves it alone, and a transaction of the identity at
  the end of the sequence adds to, or subtracts from, the balance of the sequence before
  it. It is a total function. When the identity's amounts are whole numbers whose
  absolute values add up to at most \<open>2^53\<close>, no sum is rounded: the balance is the sum of
  the identity's CREDIT amounts minus the sum of its DEBIT amounts, and every reordering
  of the sequence has the same balance.
\<close>

theorem computeBalance_exact_sums:
  "computeBalance uid [] = Finite 0
   \<and> computeBalance uid (txs @ [t])
       = (if tx_userId t = uid then balance_step (computeBalance uid txs) t
          else computeBalance uid txs)
   \<and> (exact_amounts (filter (\<lambda>t. tx_userId t = uid) txs) \<longrightarrow>
        computeBalance uid txs
          = Finite (sum_list (map (\<lambda>t. rat_of_double (tx_amount t))
                      (filter (\<lambda>t. tx_userId t = uid \<and> tx_type t = CREDIT) txs))
                    - sum_list (map (\<lambda>t. rat_of_double (tx_amount t))
                        (filter (\<lambda>t. tx_userId t = uid \<and> tx_type t = DEBIT) txs))))
   \<and> (exact_amounts (filter (\<lambda>t. tx_userId t = uid) txs) \<and> mset txs' = mset txs \<longrightarrow>
        computeBalance uid txs' = computeBalance uid txs)"
proof (intro conjI impI)
  show "computeBalance uid [] = Finite 0" by (simp add: computeBalance_def)
  show "computeBalance uid (txs @ [t])
       = (if tx_userId t = uid then balance_step (computeBalance uid txs) t
          else computeBalance uid txs)"
    by (rule computeBalance_snoc)
next
  assume e: "exact_amounts (filter (\<lambda>t. tx_userId t = uid) txs)"
  have c: "filter (\<lambda>t. tx_type t = CREDIT) (filter (\<lambda>t. tx_userId t = uid) txs)
             = filter (\<lambda>t. tx_userId t = uid \<and> tx_type t = CREDIT) txs"
    by (simp add: conj_commute)
  have d: "filter (\<lambda>t. tx_type t = DEBIT) (filter (\<lambda>t. tx_userId t = uid) txs)
             = filter (\<lambda>t. tx_userId t = uid \<and> tx_type t = DEBIT) txs"
    by (simp add: conj_commute)
  show "computeBalance uid txs
          = Finite (sum_list (map (\<lambda>t. rat_of_double (tx_amount t))
                      (filter (\<lambda>t. tx_userId t = uid \<and> tx_type t = CREDIT) txs))
                    - sum_list (map (\<lambda>t. rat_of_double (tx_amount t))
                        (filter (\<lambda>t. tx_userId t = uid \<and> tx_type t = DEBIT) txs)))"
    unfolding computeBalance_sum [OF e] signed_amounts_split c d ..
next
  assume a: "exact_amounts (filter (\<lambda>t. tx_userId t = uid) txs) \<and> mset txs' = mset txs"
  then have e: "exact_amounts (filter (\<lambda>t. tx_userId t = uid) txs)" by (rule conjunct1)
  from a have "mset txs' = mset txs" by (rule conjunct2)
  then have m: "mset (filter (\<lambda>t. tx_userId t = uid) txs') = mset (filter (\<lambda>t. tx_userId t = uid) txs)"
    by (rule filter_mset_eq)
  from e have e': "exact_amounts (filter (\<lambda>t. tx_userId t = uid) txs')"
    by (simp only: exact_amounts_mset [OF m])
  show "computeBalance uid txs' = computeBalance uid txs"
    unfolding computeBalance_sum [OF e] computeBalance_sum [OF e']
    by (simp only: sum_list_map_mset [OF m])
qed

lemma scenario5_perm: "mset scenario5_shuffled = mset scenario5"
  by (simp add: scenario5_def scenario5_shuffled_def)

lemma scenario5_own:
  "filter (\<lambda>t. tx_userId t = ''u_abc'') scenario5 = scenario5"
  "filter (\<lambda>t. tx_userId t = ''u_abc'') scenario5_shuffled = scenario5_shuffled"
  by (simp_all add: scenario5_def scenario5_shuffled_def tx_of_def)

lemma scenario5_exact: "exact_amounts scenario5" "exact_amounts scenario5_shuffled"
  by (simp_all add: scenario5_def scenario5_shuffled_def exact_amounts_def whole_amount_def
      tx_of_def rat_of_double_def)

theorem computeBalance_exact_sums_witness:
  "exact_amounts (filter (\<lambda>t. tx_userId t = ''u_abc'') scenario5)
   \<and> mset scenario5_shuffled = mset scenario5
   \<and> computeBalance ''u_abc'' scenario5 = Finite 500
   \<and> computeBalance ''u_abc'' scenario5_shuffled = Finite 500
   \<and> computeBalance ''u_abc'' (scenario5 @ [foreign_negative_tx]) = Finite 500"
proof -
  note T = computeBalance_exact_sums [of "''u_abc''" scenario5 foreign_negative_tx scenario5_shuffled]
  have e: "exact_amounts (filter (\<lambda>t. tx_userId t = ''u_abc'') scenario5)"
    by (simp only: scenario5_own scenario5_exact)
  have v: "computeBalance ''u_abc'' scenario5 = Finite 500"
    using T e by (simp add: scenario5_def tx_of_def rat_of_double_def)
  have s: "computeBalance ''u_abc'' scenario5_shuffled = Finite 500"
    using T e scenario5_perm v by simp
  have f: "computeBalance ''u_abc'' (scenario5 @ [foreign_negative_tx]) = Finite 500"
    using T v by (simp add: foreign_negative_tx_def tx_of_def)
  show ?thesis by (intro conjI e scenario5_perm v s f)
qed

subsection \<open>The running-balance series\<close>

lemma round_double_numeral:
  "numeral n \<le> (2::int) ^ 53 \<Longrightarrow> round_double (numeral n) = Finite (numeral n)"
  using round_double_whole [of "numeral n"] by simp

lemma round_double_neg_numeral:
  "numeral n \<le> (2::int) ^ 53 \<Longrightarrow> round_double (- numeral n) = Finite (- numeral n)"
  using round_double_whole [of "- numeral n"] by simp

lemma next_point_eq:
  "next_point f acc t = \<lparr> pt_timestamp = tx_timestamp t, pt_balance = balance_step (last_balance acc) t,
      pt_date = f (tx_timestamp t) \<rparr>"
  by (simp add: next_point_def last_balance_def balance_step_def Let_def last_conv_nth)

lemma series_fold:
  "foldl (\<lambda>acc tx. acc @ [next_point f acc tx]) acc ts = acc @ points_from f (last_balance acc) ts"
proof (induction ts arbitrary: acc)
  case Nil
  show ?case by simp
next
  case (Cons t ts)
  let ?p = "next_point f acc t"
  have lb: "last_balance (acc @ [?p]) = balance_step (last_balance acc) t"
    by (simp add: last_balance_def next_point_eq)
  have "foldl (\<lambda>acc tx. acc @ [next_point f acc tx]) acc (t # ts)
          = foldl (\<lambda>acc tx. acc @ [next_point f acc tx]) (acc @ [?p]) ts"
    by simp
  also have "\<dots> = (acc @ [?p]) @ points_from f (last_balance (acc @ [?p])) ts"
    by (rule Cons.IH)
  also have "\<dots> = acc @ points_from f (last_balance acc) (t # ts)"
    unfolding lb by (simp add: next_point_eq)
  finally show ?case .
qed

lemma running_points_from: "running_points f ts = points_from f (Finite 0) ts"
  by (simp add: running_points_def series_fold last_balance_def)

lemma timeSeries_points:
  "timeSeries f txs
     = (if txs = [] then None else Some (points_from f (Finite 0) (sort_key tx_timestamp txs)))"
  by (simp add: timeSeries_def running_points_from)

lemma length_points_from: "length (points_from f b ts) = length ts"
  by (induction ts arbitrary: b) simp_all

lemma points_from_nth:
  "k < length ts \<Longrightarrow> points_from f b ts ! k
     = \<lparr> pt_timestamp = tx_timestamp (ts ! k), pt_balance = foldl balance_step b (take (Suc k) ts),
         pt_date = f (tx_timestamp (ts ! k)) \<rparr>"
proof (induction ts arbitrary: b k)
  case Nil
  then show ?case by simp
next
  case (Cons t ts)
  then show ?case by (cases k) simp_all
qed

lemma points_from_map:
  "points_from f b ts
     = map (\<lambda>k. \<lparr> pt_timestamp = tx_timestamp (ts ! k),
                  pt_balance = foldl balance_step b (take (Suc k) ts),
                  pt_date = f (tx_timestamp (ts ! k)) \<rparr>) [0..<length ts]"
  by (rule nth_equalityI) (simp_all add: length_points_from points_from_nth)

lemma points_from_Nil_iff: "(points_from f b ts = []) = (ts = [])"
  by (cases ts) simp_all

lemma last_points_from:
  "ts \<noteq> [] \<Longrightarrow> pt_balance (last (points_from f b ts)) = foldl balance_step b ts"
  by (induction ts arbitrary: b) (simp_all add: points_from_Nil_iff)

lemma sort_key_stable_ts:
  "filter (\<lambda>t. tx_timestamp t = k) (sort_key tx_timestamp txs) = filter (\<lambda>t. tx_timestamp t = k) txs"
  by (rule sort_key_stable)

lemma computeBalance_own:
  "\<forall>t\<in>set txs. tx_userId t = uid \<Longrightarrow> computeBalance uid txs = foldl balance_step (Finite 0) txs"
  by (simp add: computeBalance_def)

lemma foldl_balance_step_sorted:
  assumes "exact_amounts txs"
  shows "foldl balance_step (Finite 0) (sort_key tx_timestamp txs)
           = foldl balance_step (Finite 0) txs"
proof -
  have m: "mset (sort_key tx_timestamp txs) = mset txs" by simp
  from assms have e: "exact_amounts (sort_key tx_timestamp txs)"
    by (simp only: exact_amounts_mset [OF m])
  show ?thesis
    unfolding foldl_balance_step_sum [OF assms] foldl_balance_step_sum [OF e]
    by (simp only: sum_list_map_mset [OF m])
qed

lemma cents_sorted: "sort_key tx_timestamp cents_as_stored = cents_by_time"
  by (simp add: cents_as_stored_def cents_by_time_def tx_kind_cents)

lemma cents_series:
  "timeSeries no_date cents_as_stored
     = Some [\<lparr> pt_timestamp = 1, pt_balance = Finite (8796972631510221 / 8796093022208),
                pt_date = [] \<rparr>,
             \<lparr> pt_timestamp = 2, pt_balance = Finite (1539096376560845 / 2199023255552),
                pt_date = [] \<rparr>,
             \<lparr> pt_timestamp = 3, pt_balance = Finite (8789056147790235 / 17592186044416),
                pt_date = [] \<rparr>]"
proof -
  have n: "cents_as_stored \<noteq> []" by (simp add: cents_as_stored_def)
  have "timeSeries no_date cents_as_stored = Some (points_from no_date (Finite 0) cents_by_time)"
    by (simp only: timeSeries_points n if_False cents_sorted)
  then show ?thesis
    by (simp only: cents_by_time_def points_from.simps balance_steps_by_time tx_kind_cents
        no_date_def)
qed

lemma mixed_series:
  "timeSeries no_date mixed_credits
     = Some [\<lparr> pt_timestamp = 1, pt_balance = Finite 100, pt_date = [] \<rparr>,
             \<lparr> pt_timestamp = 2, pt_balance = Finite 150, pt_date = [] \<rparr>]"
  by (simp add: timeSeries_points mixed_credits_def tx_of_def balance_step_def no_date_def
      round_double_numeral)

lemma mixed_balances:
  "computeBalance ''u_abc'' mixed_credits = Finite 100"
  "computeBalance ''u_xyz'' mixed_credits = Finite 50"
  by (simp_all add: computeBalance_def mixed_credits_def tx_of_def balance_step_def
      round_double_numeral)

text \<open>
  C7 as stated does not hold. The series folds over the copy sorted by time, the balance
  over the collection in stored order, and double sums depend on the order: for the credit
  of 1000.10 and the debits of 300.20 and 200.30 of one identity, stored with the newest
  in front, the last point of the series is \<open>8789056147790235 / 2^44\<close>
  (499.6000000000001) and the balance is \<open>4394528073895117 / 2^43\<close> (499.6). The series
  also folds over every transaction it is given, while the balance keeps those of one
  identity: on a collection that holds a credit of 100 for one identity and a credit of 50
  for another (the ledger view passes the whole collection to the engine) the last point
  is 150, the balance of the first identity is 100 and that of the second is 50.
\<close>

theorem timeSeries_mixed_counterexample:
  "list_all (\<lambda>t. tx_userId t = ''u_abc'') cents_as_stored
   \<and> map_option (\<lambda>ps. pt_balance (last ps)) (timeSeries no_date cents_as_stored)
       = Some (Finite (8789056147790235 / 17592186044416))
   \<and> computeBalance ''u_abc'' cents_as_stored = Finite (4394528073895117 / 8796093022208)
   \<and> currentBalance (Some member_session) cents_as_stored
       = Finite (4394528073895117 / 8796093022208)
   \<and> map_option (\<lambda>ps. pt_balance (last ps)) (timeSeries no_date mixed_credits)
       = Some (Finite 150)
   \<and> computeBalance ''u_abc'' mixed_credits = Finite 100
   \<and> currentBalance (Some member_session) mixed_credits = Finite 100
   \<and> computeBalance ''u_xyz'' mixed_credits = Finite 50"
proof -
  have o: "list_all (\<lambda>t. tx_userId t = ''u_abc'') cents_as_stored"
    by (simp add: cents_as_stored_def tx_kind_cents)
  have b: "computeBalance ''u_abc'' cents_as_stored = Finite (4394528073895117 / 8796093022208)"
    by (simp only: computeBalance_def cents_own fold_cents_as_stored)
  have u: "s_userId member_session = ''u_abc''" by (simp add: member_session_def)
  show ?thesis
    by (simp add: o cents_series b mixed_series mixed_balances currentBalance_def u)
qed

text \<open>
  C7, amended. On the empty set the engine returns \<open>null\<close> and builds no series, and the
  balance is 0. On a non-empty set the series is the fold of \<open>computeBalance\<close> (a double
  addition for a CREDIT, a double subtraction for any other type) run over all the
  transactions given, after a stable ascending sort on the timestamp: the sorted array is
  ordered, a permutation of the input and keeps the input order among equal timestamps;
  the series has one point per transaction, the point at position \<open>i\<close> carrying the
  timestamp of the \<open>i\<close>-th sorted transaction and the fold over the first \<open>i + 1\<close> of
  them, so the balance of the last point is the fold over the sorted array. It is
  \<open>computeBalance\<close> of an identity when every transaction of the set belongs to that
  identity and the amounts are whole numbers whose absolute values add up to at most
  \<open>2^53\<close>.
\<close>

theorem timeSeries_running_balance:
  "(let sorted_txs = sort_key tx_timestamp txs in
      sorted (map tx_timestamp sorted_txs) \<and> mset sorted_txs = mset txs
      \<and> (\<forall>k. filter (\<lambda>t. tx_timestamp t = k) sorted_txs = filter (\<lambda>t. tx_timestamp t = k) txs)
      \<and> (txs \<noteq> [] \<longrightarrow>
           timeSeries f txs
             = Some (map (\<lambda>i. \<lparr> pt_timestamp = tx_timestamp (sorted_txs ! i),
                       pt_balance = foldl balance_step (Finite 0) (take (Suc i) sorted_txs),
                       pt_date = f (tx_timestamp (sorted_txs ! i)) \<rparr>) [0..<length txs]))
      \<and> (txs \<noteq> [] \<longrightarrow>
           map_option (\<lambda>ps. pt_balance (last ps)) (timeSeries f txs)
             = Some (foldl balance_step (Finite 0) sorted_txs)))
   \<and> map_option length (timeSeries f txs) = (if txs = [] then None else Some (length txs))
   \<and> (txs \<noteq> [] \<and> exact_amounts txs \<and> (\<forall>t\<in>set txs. tx_userId t = uid)
        \<longrightarrow> map_option (\<lambda>ps. pt_balance (last ps)) (timeSeries f txs)
              = Some (computeBalance uid txs))
   \<and> timeSeries f [] = None \<and> computeBalance uid [] = Finite 0"
proof -
  let ?s = "sort_key tx_timestamp txs"
  have so: "sorted (map tx_timestamp ?s)" by simp
  have ms: "mset ?s = mset txs" by simp
  have len: "length ?s = length txs" by simp
  have st: "\<forall>k. filter (\<lambda>t. tx_timestamp t = k) ?s = filter (\<lambda>t. tx_timestamp t = k) txs"
    by (simp only: sort_key_stable_ts simp_thms)
  have ser: "timeSeries f txs
          = Some (map (\<lambda>i. \<lparr> pt_timestamp = tx_timestamp (?s ! i),
                       pt_balance = foldl balance_step (Finite 0) (take (Suc i) ?s),
                       pt_date = f (tx_timestamp (?s ! i)) \<rparr>) [0..<length txs])"
    if "txs \<noteq> []"
    using points_from_map [of f "Finite 0" ?s] that by (simp only: timeSeries_points len if_False)
  have lst: "map_option (\<lambda>ps. pt_balance (last ps)) (timeSeries f txs)
               = Some (foldl balance_step (Finite 0) ?s)" if "txs \<noteq> []"
  proof -
    from that have "?s \<noteq> []" by (metis len length_0_conv)
    then have "pt_balance (last (points_from f (Finite 0) ?s)) = foldl balance_step (Finite 0) ?s"
      by (rule last_points_from)
    then show ?thesis using that by (simp only: timeSeries_points if_False option.map)
  qed
  have own: "map_option (\<lambda>ps. pt_balance (last ps)) (timeSeries f txs)
               = Some (computeBalance uid txs)"
    if "txs \<noteq> [] \<and> exact_amounts txs \<and> (\<forall>t\<in>set txs. tx_userId t = uid)"
  proof -
    from that have n: "txs \<noteq> []" and e: "exact_amounts txs"
      and o: "\<forall>t\<in>set txs. tx_userId t = uid" by simp_all
    show ?thesis
      by (simp only: lst [OF n] foldl_balance_step_sorted [OF e] computeBalance_own [OF o])
  qed
  have l: "map_option length (timeSeries f txs) = (if txs = [] then None else Some (length txs))"
    by (simp add: timeSeries_points length_points_from)
  have e: "timeSeries f [] = None" by (simp add: timeSeries_def)
  have z: "computeBalance uid [] = Finite 0" by (simp add: computeBalance_def)
  show ?thesis
    unfolding Let_def
    by (intro conjI impI so ms st ser lst own l e z) simp_all
qed

lemma scenario5_series:
  "map_option (map pt_balance) (timeSeries no_date scenario5_shuffled)
     = Some [Finite 1000, Finite 700, Finite 500]"
  by (simp add: scenario5_shuffled_def timeSeries_points tx_of_def balance_step_def dsub_def
      round_double_numeral)

theorem timeSeries_running_balance_witness:
  "scenario5_shuffled \<noteq> []
   \<and> exact_amounts scenario5_shuffled
   \<and> list_all (\<lambda>t. tx_userId t = ''u_abc'') scenario5_shuffled
   \<and> map_option (map pt_balance) (timeSeries no_date scenario5_shuffled)
       = Some [Finite 1000, Finite 700, Finite 500]
   \<and> map_option (\<lambda>ps. pt_balance (last ps)) (timeSeries no_date scenario5_shuffled)
       = Some (computeBalance ''u_abc'' scenario5_shuffled)
   \<and> computeBalance ''u_abc'' scenario5_shuffled = Finite 500"
proof -
  note T = timeSeries_running_balance [of scenario5_shuffled no_date "''u_abc''"]
  have n: "scenario5_shuffled \<noteq> []" by (simp add: scenario5_shuffled_def)
  have x: "exact_amounts scenario5_shuffled" by (rule scenario5_exact)
  have o: "\<forall>t\<in>set scenario5_shuffled. tx_userId t = ''u_abc''"
    by (simp add: scenario5_shuffled_def tx_of_def)
  then have o': "list_all (\<lambda>t. tx_userId t = ''u_abc'') scenario5_shuffled"
    by (simp only: list_all_iff)
  from T n x o have l: "map_option (\<lambda>ps. pt_balance (last ps)) (timeSeries no_date scenario5_shuffled)
       = Some (computeBalance ''u_abc'' scenario5_shuffled)"
    by blast
  have "map_option (\<lambda>ps. pt_balance (last ps)) (timeSeries no_date scenario5_shuffled)
          = Some (Finite 500)"
    by (simp add: scenario5_shuffled_def timeSeries_points tx_of_def balance_step_def dsub_def
        round_double_numeral)
  with l have b: "computeBalance ''u_abc'' scenario5_shuffled = Finite 500" by simp
  show ?thesis by (intro conjI n x o' scenario5_series l b)
qed

subsection \<open>The analytics engine and its store\<close>

lemma foldl_set_category:
  "c < length (objects h) \<Longrightarrow>
   foldl (\<lambda>h t. set_category c t h) h ts
     = h\<lparr> objects := (objects h)[c := foldl add_category (objects h ! c) ts] \<rparr>"
  by (induction ts arbitrary: h) (simp_all add: set_category_def)

lemma foldl_push_point:
  "p < length (pointArrays h) \<Longrightarrow>
   foldl (\<lambda>h tx. push_point p (next_point f (pointArrays h ! p) tx) h) h ts
     = h\<lparr> pointArrays := (pointArrays h)
           [p := foldl (\<lambda>acc tx. acc @ [next_point f acc tx]) (pointArrays h ! p) ts] \<rparr>"
  by (induction ts arbitrary: h) (simp_all add: push_point_def)

lemma length_insert_with: "length (insert_with before x xs) = Suc (length xs)"
  by (induction xs) simp_all

lemma length_sort_with: "length (sort_with before xs) = length xs"
  by (induction xs) (simp_all add: sort_with_def length_insert_with)

lemma median_reads_in_range:
  assumes "sortedAmounts \<noteq> []"
  shows "length sortedAmounts div 2 < length sortedAmounts
    \<and> (length sortedAmounts mod 2 = 0 \<longrightarrow>
         0 < length sortedAmounts div 2 \<and> length sortedAmounts div 2 - 1 < length sortedAmounts)"
proof -
  from assms have "0 < length sortedAmounts" by simp
  then show ?thesis by presburger
qed

lemmas heap_steps =
  filter_tx_def map_tx_num_def map_tx_amount_def spread_tx_def spread_amounts_def alloc_tx_def
  alloc_num_def alloc_amounts_def alloc_points_def alloc_object_def sort_tx_by_timestamp_def
  sort_amounts_def

lemma insights_empty:
  "txArrays h ! a = [] \<Longrightarrow> insights f now a balance h = (None, h)"
  by (simp add: insights_def)

lemma insights_heap:
  assumes "a < length (txArrays h)" and "txArrays h ! a \<noteq> []"
  shows "snd (insights f now a balance h) = final_heap f (txArrays h ! a) h"
  using assms
  by (simp add: insights_def Let_def heap_steps foldl_set_category foldl_push_point nth_append
      final_heap_def running_points_def cong: let_weak_cong prod.case_cong_weak)

lemma insights_view:
  assumes "a < length (txArrays h)"
  shows "view (insights f now a balance h) = insights_value f now (txArrays h ! a) balance"
proof (cases "txArrays h ! a = []")
  case True
  then show ?thesis by (simp add: insights_empty view_def insights_value_def)
next
  case False
  with assms show ?thesis
    by (simp add: insights_def Let_def heap_steps foldl_set_category foldl_push_point nth_append
        view_def insights_value_def running_points_def cong: let_weak_cong prod.case_cong_weak)
qed

lemma insights_frame:
  assumes "a < length (txArrays h)"
  shows "take (length (txArrays h)) (txArrays (snd (insights f now a balance h))) = txArrays h
    \<and> take (length (numArrays h)) (numArrays (snd (insights f now a balance h))) = numArrays h
    \<and> take (length (amountArrays h)) (amountArrays (snd (insights f now a balance h)))
        = amountArrays h
    \<and> take (length (pointArrays h)) (pointArrays (snd (insights f now a balance h))) = pointArrays h
    \<and> take (length (objects h)) (objects (snd (insights f now a balance h))) = objects h"
proof (cases "txArrays h ! a = []")
  case True
  then show ?thesis by (simp add: insights_empty)
next
  case False
  with assms show ?thesis by (simp add: insights_heap final_heap_def)
qed

lemma insights_input_kept:
  assumes "a < length (txArrays h)"
  shows "txArrays (snd (insights f now a balance h)) ! a = txArrays h ! a"
proof (cases "txArrays h ! a = []")
  case True
  then show ?thesis by (simp add: insights_empty)
next
  case False
  with assms show ?thesis by (simp add: insights_heap final_heap_def nth_append)
qed

lemma one_debit_value:
  "v_burnRate (the (insights_value no_date now [tx_of ''u_abc'' DEBIT (Finite 100) 0] bal))
     = 100 / max 1 (real_of_int now / 86400000)"
  by (simp add: insights_value_def burnRate_of_def totalDebits_of_def Math_min_def tx_of_def
      round_double_numeral real_of_double_def rat_of_double_def)

text \<open>
  C9 as stated does not hold. The engine reads the clock: on the same array (one debit of
  100 at time 0) and the same balance, a call two days after the debit gives a burn rate
  of 50 a day and a call four days after it gives 25.
\<close>

theorem insights_clock_counterexample:
  "v_burnRate (the (view (insights no_date 172800000 0 (Finite 0) one_debit_heap))) = 50
   \<and> v_burnRate (the (view (insights no_date 345600000 0 (Finite 0) one_debit_heap))) = 25
   \<and> view (insights no_date 172800000 0 (Finite 0) one_debit_heap)
       \<noteq> view (insights no_date 345600000 0 (Finite 0) one_debit_heap)"
proof -
  have a: "0 < length (txArrays one_debit_heap)" by (simp add: one_debit_heap_def)
  have t: "txArrays one_debit_heap ! 0 = [tx_of ''u_abc'' DEBIT (Finite 100) 0]"
    by (simp add: one_debit_heap_def)
  have 1: "v_burnRate (the (view (insights no_date 172800000 0 (Finite 0) one_debit_heap))) = 50"
    by (simp add: insights_view [OF a] t one_debit_value)
  have 2: "v_burnRate (the (view (insights no_date 345600000 0 (Finite 0) one_debit_heap))) = 25"
    by (simp add: insights_view [OF a] t one_debit_value)
  from 1 2 show ?thesis by auto
qed

text \<open>
  C9, amended. A call of the engine on an allocated transaction array leaves every array
  and object that existed before the call as it was, the input array in particular (the
  two sorts work on fresh copies), and what the caller reads off the result is determined
  by the contents of the input array, the balance, the current time and the browser's
  date format: a second call on the resulting store, and a call on any other store that
  holds the same contents, give the same output at the same time. On a non-empty input
  the resulting store is the old one followed by the arrays the call built: the debits
  and the sorted copy of the input, the timestamps, the amounts in source order and their
  sorted copy, the series, and the category totals.
\<close>

theorem insights_pure_given_clock:
  assumes "a < length (txArrays h)"
  shows "take (length (txArrays h)) (txArrays (snd (insights f now a balance h))) = txArrays h
    \<and> take (length (numArrays h)) (numArrays (snd (insights f now a balance h))) = numArrays h
    \<and> take (length (amountArrays h)) (amountArrays (snd (insights f now a balance h)))
        = amountArrays h
    \<and> take (length (pointArrays h)) (pointArrays (snd (insights f now a balance h))) = pointArrays h
    \<and> take (length (objects h)) (objects (snd (insights f now a balance h))) = objects h
    \<and> txArrays (snd (insights f now a balance h)) ! a = txArrays h ! a
    \<and> (txArrays h ! a \<noteq> [] \<longrightarrow>
         snd (insights f now a balance h) = final_heap f (txArrays h ! a) h)
    \<and> view (insights f now a balance (snd (insights f now a balance h)))
        = view (insights f now a balance h)
    \<and> (b < length (txArrays g) \<and> txArrays g ! b = txArrays h ! a \<longrightarrow>
         view (insights f now b balance g) = view (insights f now a balance h))"
proof -
  have again: "a < length (txArrays (snd (insights f now a balance h)))"
    using insights_frame [OF assms, of f now balance] assms
    by (metis length_take min.absorb4 min.cobounded1 not_le_imp_less order.strict_trans2 take_all)
  show ?thesis
    using insights_frame [OF assms, of f now balance] insights_input_kept [OF assms, of f now balance]
    by (simp add: insights_view insights_heap assms again)
qed

theorem insights_pure_given_clock_witness:
  "0 < length (txArrays scenario5_heap)
   \<and> txArrays (snd (insights no_date 5 0 (Finite 500) scenario5_heap)) ! 0 = scenario5_shuffled
   \<and> take 1 (txArrays (snd (insights no_date 5 0 (Finite 500) scenario5_heap)))
       = [scenario5_shuffled]
   \<and> txArrays scenario5_heap ! 0 \<noteq> []
   \<and> snd (insights no_date 5 0 (Finite 500) scenario5_heap)
       = final_heap no_date scenario5_shuffled scenario5_heap
   \<and> view (insights no_date 5 0 (Finite 500)
             (snd (insights no_date 5 0 (Finite 500) scenario5_heap)))
       = view (insights no_date 5 0 (Finite 500) scenario5_heap)
   \<and> 0 < length (txArrays (final_heap no_date scenario5 scenario5_heap))
   \<and> txArrays (final_heap no_date scenario5 scenario5_heap) ! 0 = txArrays scenario5_heap ! 0
   \<and> view (insights no_date 5 0 (Finite 500) (final_heap no_date scenario5 scenario5_heap))
       = view (insights no_date 5 0 (Finite 500) scenario5_heap)"
proof -
  let ?I = "insights no_date 5 0 (Finite 500) scenario5_heap"
  let ?g = "final_heap no_date scenario5 scenario5_heap"
  have a: "0 < length (txArrays scenario5_heap)" by (simp add: scenario5_heap_def)
  have t: "txArrays scenario5_heap = [scenario5_shuffled]" by (simp add: scenario5_heap_def)
  have n: "txArrays scenario5_heap ! 0 \<noteq> []" by (simp add: t scenario5_shuffled_def)
  have g1: "0 < length (txArrays ?g)" by (simp add: final_heap_def)
  have g2: "txArrays ?g ! 0 = txArrays scenario5_heap ! 0" by (simp add: final_heap_def t)
  note T = insights_pure_given_clock [OF a, of no_date 5 "Finite 500" 0 ?g]
  from T have T1: "take (length (txArrays scenario5_heap)) (txArrays (snd ?I))
      = txArrays scenario5_heap"
    by blast
  from T have T5: "txArrays (snd ?I) ! 0 = txArrays scenario5_heap ! 0"
    by blast
  from T n have T6: "snd ?I = final_heap no_date (txArrays scenario5_heap ! 0) scenario5_heap"
    by blast
  from T have T7: "view (insights no_date 5 0 (Finite 500) (snd ?I)) = view ?I"
    by blast
  from T g1 g2 have T8: "view (insights no_date 5 0 (Finite 500) ?g) = view ?I"
    by blast
  have c2: "txArrays (snd ?I) ! 0 = scenario5_shuffled" using T5 by (simp add: t)
  have c3: "take 1 (txArrays (snd ?I)) = [scenario5_shuffled]" using T1 by (simp add: t)
  have c5: "snd ?I = final_heap no_date scenario5_shuffled scenario5_heap"
    using T6 by (simp add: t)
  show ?thesis
    by (intro conjI a c2 c3 n c5 T7 g1 g2 T8)
qed

end
